theory Spec2Isabelle
  imports Complex_Main "HOL-Library.Sublist" "HOL-Library.Multiset"
begin

section \<open>JSON values and JavaScript strings\<close>

text \<open>
  Response bodies and decoded token payloads are JSON values. JavaScript's
  \<open>undefined\<close> is the \<open>None\<close> of \<open>json option\<close>; \<open>res.json\<close> leaves a
  property whose value is \<open>undefined\<close> out of the object it sends, which
  \<open>obj\<close> does. Strings are lists of characters; the whitespace class of
  \<open>trim\<close> is restricted to its ASCII members.
\<close>

datatype json =
    JNull
  | JBool bool
  | JNum real
  | JStr string
  | JArr "json list"
  | JObj "(string \<times> json) list"

fun obj :: "(string \<times> json option) list \<Rightarrow> json" where
  "obj kvs = JObj (concat (map (\<lambda>(k, v). case v of None \<Rightarrow> [] | Some j \<Rightarrow> [(k, j)]) kvs))"

text \<open>
  Property access \<open>v.k\<close>: the value of the property of an object, \<open>undefined\<close>
  on a string, a number or a boolean. It is applied to response bodies and to
  what \<open>jwt.verify\<close> returns, an object or a string, never \<open>null\<close>.
\<close>

fun js_get :: "string \<Rightarrow> json \<Rightarrow> json option" where
  "js_get k (JObj kvs) = map_of kvs k"
| "js_get k v = None"

text \<open>Truthiness, as \<open>!v\<close> and \<open>if (v)\<close> test it.\<close>

fun truthy :: "json option \<Rightarrow> bool" where
  "truthy None = False"
| "truthy (Some JNull) = False"
| "truthy (Some (JBool b)) = b"
| "truthy (Some (JNum n)) = (n \<noteq> 0)"
| "truthy (Some (JStr s)) = (s \<noteq> [])"
| "truthy (Some (JArr xs)) = True"
| "truthy (Some (JObj kvs)) = True"

definition is_space :: "char \<Rightarrow> bool" where
  "is_space c = (c \<in> set [CHR '' '', CHR 0x09, CHR 0x0A, CHR 0x0B, CHR 0x0C, CHR 0x0D])"

definition trim :: "string \<Rightarrow> string" where
  "trim s = rev (dropWhile is_space (rev (dropWhile is_space s)))"

text \<open>
  \<open>s.replace(pat, rep)\<close> with a string pattern: the leftmost occurrence of
  \<open>pat\<close> is replaced, the rest of \<open>s\<close> is kept.
\<close>

fun replace :: "string \<Rightarrow> string \<Rightarrow> string \<Rightarrow> string" where
  "replace pat rep [] = (if pat = [] then rep else [])"
| "replace pat rep (c # cs) =
     (if prefix pat (c # cs) then rep @ drop (length pat) (c # cs)
      else c # replace pat rep cs)"

definition lower_char :: "char \<Rightarrow> char" where
  "lower_char c =
     (case map_of (zip ''ABCDEFGHIJKLMNOPQRSTUVWXYZ'' ''abcdefghijklmnopqrstuvwxyz'') c of
        Some l \<Rightarrow> l
      | None \<Rightarrow> c)"

definition toLowerCase :: "string \<Rightarrow> string" where
  "toLowerCase s = map lower_char s"

text \<open>\<open>s.split(',')\<close>: the pieces between the commas, one piece for a string without.\<close>

fun split :: "char \<Rightarrow> string \<Rightarrow> string list" where
  "split sep [] = [[]]"
| "split sep (c # cs) =
     (if c = sep then [] # split sep cs
      else (case split sep cs of
              p # ps \<Rightarrow> (c # p) # ps
            | [] \<Rightarrow> [[c]]))"

section \<open>Responses, documents and the external collaborators\<close>

record response =
  status :: nat
  body :: json

text \<open>
  Modelled from the spec: the User and Post schemas (models/User, models/Post) are
  not part of the sources. A user has an id, a name, an email and a password
  hash; a post has an id, its owner's id, a name, a description, the upload
  time (milliseconds since the epoch), its tags and an optional image path. A
  collection is the list of its documents in insertion order, \<open>save\<close> appends.
\<close>

record user_doc =
  user_id :: string
  user_name :: string
  user_email :: string
  user_password :: string

record post_doc =
  post_id :: string
  post_userId :: string
  post_postName :: string
  post_description :: string
  post_uploadTime :: int
  post_tags :: "string list"
  post_imagePath :: "string option"

datatype js_error = Error string | MulterError string

text \<open>
  A JavaScript number: \<open>NaN\<close>, an infinity (\<open>Infinity True\<close> is the positive
  one) or a finite value. The two zeros are one value here: the routes divide
  by a number only to round the quotient up and send it as JSON, where both
  infinities are \<open>null\<close>.
\<close>

datatype js_num = NaN | Infinity bool | Num real

text \<open>
  The libraries the routes call are parameters of the model: the validators
  \<open>isEmail\<close>, \<open>normalizeEmail\<close> and \<open>isISO8601\<close> of express-validator, bcrypt
  (the salt it draws is an argument), jsonwebtoken, Node's \<open>path.extname\<close> and
  \<open>Date\<close>, and what the database does with a query: compiling a \<open>$regex\<close> with
  option \<open>i\<close> (\<open>Inl\<close> when it rejects the pattern) and refusing an invalid
  date. \<open>jwt_verify\<close> is \<open>jwt.verify(token, process.env.JWT_SECRET)\<close> at the time
  of the request: \<open>None\<close> when it throws, the decoded payload otherwise.
  Of the language itself, \<open>toNumber\<close> and \<open>parseInt\<close> are \<open>Number(s)\<close> and
  \<open>parseInt(s)\<close> on the strings that are not decimal integers, and \<open>round64\<close>
  is the rounding of an exact result that is not an integer of at most 53
  bits to a number. \<open>odd_window\<close> is what the database makes of a \<open>skip\<close> and a
  \<open>limit\<close> that are not a count of documents: an error, or the number of
  documents it skips and the most it returns (\<open>None\<close>: all of them).
\<close>

record ext =
  isEmail :: "string \<Rightarrow> bool"
  normalizeEmail :: "string \<Rightarrow> string"
  isISO8601 :: "string \<Rightarrow> bool"
  bcrypt_hash :: "string \<Rightarrow> string \<Rightarrow> string"
  bcrypt_compare :: "string \<Rightarrow> string \<Rightarrow> bool"
  jwt_sign :: "string \<Rightarrow> int \<Rightarrow> string"
  jwt_verify :: "string \<Rightarrow> json option"
  extname :: "string \<Rightarrow> string"
  parseDate :: "string \<Rightarrow> int option"
  toISOString :: "int \<Rightarrow> string"
  regex :: "string \<Rightarrow> js_error + (string \<Rightarrow> bool)"
  castError :: "string \<Rightarrow> js_error"
  toNumber :: "string \<Rightarrow> js_num"
  parseInt :: "string \<Rightarrow> js_num"
  round64 :: "real \<Rightarrow> js_num"
  odd_window :: "js_num \<Rightarrow> js_num \<Rightarrow> js_error + nat \<times> nat option"

text \<open>
  What a request takes from the process: the clock, bcrypt's salt, the ObjectId
  of a new document, the \<open>uniqueSuffix\<close> of a stored file name and whether
  \<open>NODE_ENV\<close> is \<open>development\<close>.
\<close>

record env =
  now :: int
  salt :: string
  fresh_id :: string
  uniqueSuffix :: string
  development :: bool

section \<open>JavaScript numbers\<close>

text \<open>
  The number for an exact result: an integer of absolute value at most
  \<open>2 ^ 53\<close> is a number as it is, any other result is rounded.
\<close>

definition js_number :: "ext \<Rightarrow> real \<Rightarrow> js_num" where
  "js_number x r = (if r \<in> \<int> \<and> \<bar>r\<bar> \<le> 2 ^ 53 then Num r else round64 x r)"

fun js_sub :: "ext \<Rightarrow> js_num \<Rightarrow> js_num \<Rightarrow> js_num" where
  "js_sub x (Num a) (Num b) = js_number x (a - b)"
| "js_sub x NaN b = NaN"
| "js_sub x a NaN = NaN"
| "js_sub x (Infinity s) (Infinity t) = (if s = t then NaN else Infinity s)"
| "js_sub x (Infinity s) (Num b) = Infinity s"
| "js_sub x (Num a) (Infinity t) = Infinity (\<not> t)"

fun js_mul :: "ext \<Rightarrow> js_num \<Rightarrow> js_num \<Rightarrow> js_num" where
  "js_mul x (Num a) (Num b) = js_number x (a * b)"
| "js_mul x NaN b = NaN"
| "js_mul x a NaN = NaN"
| "js_mul x (Infinity s) (Infinity t) = Infinity (s = t)"
| "js_mul x (Infinity s) (Num b) = (if b = 0 then NaN else Infinity (s = (0 < b)))"
| "js_mul x (Num a) (Infinity t) = (if a = 0 then NaN else Infinity (t = (0 < a)))"

fun js_div :: "ext \<Rightarrow> js_num \<Rightarrow> js_num \<Rightarrow> js_num" where
  "js_div x (Num a) (Num b) =
     (if b = 0 then (if a = 0 then NaN else Infinity (0 < a)) else js_number x (a / b))"
| "js_div x NaN b = NaN"
| "js_div x a NaN = NaN"
| "js_div x (Infinity s) (Infinity t) = NaN"
| "js_div x (Infinity s) (Num b) = Infinity (s = (0 \<le> b))"
| "js_div x (Num a) (Infinity t) = Num 0"

fun js_ceil :: "js_num \<Rightarrow> js_num" where
  "js_ceil (Num r) = Num (of_int \<lceil>r\<rceil>)"
| "js_ceil v = v"

text \<open>\<open>a <= b\<close> on numbers: false when one of them is \<open>NaN\<close>.\<close>

fun js_le :: "js_num \<Rightarrow> js_num \<Rightarrow> bool" where
  "js_le (Num a) (Num b) = (a \<le> b)"
| "js_le NaN b = False"
| "js_le a NaN = False"
| "js_le (Infinity s) (Infinity t) = (t \<or> \<not> s)"
| "js_le (Infinity s) (Num b) = (\<not> s)"
| "js_le (Num a) (Infinity t) = t"

text \<open>A number in a JSON body: \<open>null\<close> unless it is finite.\<close>

fun num_json :: "js_num \<Rightarrow> json" where
  "num_json (Num r) = JNum r"
| "num_json v = JNull"
section \<open>express-validator\<close>

text \<open>
  A validator sees the field as a string, \<open>undefined\<close> as the empty one. An
  error of a chain is kept as the field it is about and its message; the
  objects of \<open>errors.array()\<close> carry the rejected value and its location as
  well, which are left out.
\<close>

definition toString :: "string option \<Rightarrow> string" where
  "toString v = (case v of None \<Rightarrow> [] | Some s \<Rightarrow> s)"

type_synonym verror = "string \<times> string"

definition errors_json :: "verror list \<Rightarrow> json" where
  "errors_json errors =
     JArr (map (\<lambda>(param, msg). JObj [(''msg'', JStr msg), (''param'', JStr param)]) errors)"

definition check :: "bool \<Rightarrow> string \<Rightarrow> string \<Rightarrow> verror list" where
  "check ok param msg = (if ok then [] else [(param, msg)])"

definition is_digit :: "char \<Rightarrow> bool" where
  "is_digit c = (48 \<le> (of_char c :: nat) \<and> (of_char c :: nat) \<le> 57)"

definition is_letter :: "char \<Rightarrow> bool" where
  "is_letter c = ((65 \<le> (of_char c :: nat) \<and> (of_char c :: nat) \<le> 90) \<or>
                  (97 \<le> (of_char c :: nat) \<and> (of_char c :: nat) \<le> 122))"

definition is_line_terminator :: "char \<Rightarrow> bool" where
  "is_line_terminator c = (c = CHR 0x0A \<or> c = CHR 0x0D)"

text \<open>
  \<open>/^(?=.*[A-Za-z])(?=.*\d)/\<close>: both lookaheads start at the beginning of the
  string, and \<open>.\<close> does not cross a line terminator.
\<close>

definition matches_letter_and_digit :: "string \<Rightarrow> bool" where
  "matches_letter_and_digit s =
     (let line = takeWhile (\<lambda>c. \<not> is_line_terminator c) s
      in (\<exists>c \<in> set line. is_letter c) \<and> (\<exists>c \<in> set line. is_digit c))"

text \<open>
  \<open>js_int\<close> is the integer that a string of \<open>/^[-+]?[0-9]+$/\<close> stands for.
  \<open>string_number\<close> is \<open>Number(s)\<close>, the coercion of a string in \<open>page - 1\<close>,
  \<open>total / limit\<close> and \<open>str >= min\<close>, and \<open>string_parseInt\<close> is \<open>parseInt(s)\<close>:
  the number for that integer, and what the language makes of any other
  string. \<open>isInt\<close> accepts the strings of the pattern that are, as numbers,
  within the bounds.
\<close>

definition digits_value :: "string \<Rightarrow> int" where
  "digits_value ds = foldl (\<lambda>n c. 10 * n + (int (of_char c) - 48)) 0 ds"

definition js_int :: "string \<Rightarrow> int option" where
  "js_int s =
     (let (neg, ds) = (case s of
                         [] \<Rightarrow> (False, [])
                       | c # cs \<Rightarrow> if c = CHR ''-'' then (True, cs)
                                   else if c = CHR ''+'' then (False, cs)
                                   else (False, s))
      in if ds \<noteq> [] \<and> list_all is_digit ds
         then Some (if neg then - digits_value ds else digits_value ds)
         else None)"

definition string_number :: "ext \<Rightarrow> string \<Rightarrow> js_num" where
  "string_number x s =
     (case js_int s of Some n \<Rightarrow> js_number x (of_int n) | None \<Rightarrow> toNumber x s)"

definition string_parseInt :: "ext \<Rightarrow> string \<Rightarrow> js_num" where
  "string_parseInt x s =
     (case js_int s of Some n \<Rightarrow> js_number x (of_int n) | None \<Rightarrow> parseInt x s)"

definition isInt :: "ext \<Rightarrow> real option \<Rightarrow> real option \<Rightarrow> string \<Rightarrow> bool" where
  "isInt x minimum maximum s =
     (js_int s \<noteq> None \<and>
      (case minimum of None \<Rightarrow> True | Some lo \<Rightarrow> js_le (Num lo) (string_number x s)) \<and>
      (case maximum of None \<Rightarrow> True | Some hi \<Rightarrow> js_le (string_number x s) (Num hi)))"

definition escape_char :: "char \<Rightarrow> string" where
  "escape_char c =
     (if c = CHR ''&'' then ''&amp;''
      else if c = CHR 0x22 then ''&quot;''
      else if c = CHR 0x27 then ''&#x27;''
      else if c = CHR ''<'' then ''&lt;''
      else if c = CHR ''>'' then ''&gt;''
      else if c = CHR ''/'' then ''&#x2F;''
      else if c = CHR 0x5C then ''&#x5C;''
      else if c = CHR 0x60 then ''&#96;''
      else [c])"

definition escape :: "string \<Rightarrow> string" where
  "escape s = concat (map escape_char s)"

section \<open>The token verifier: middleware/auth.js\<close>

record upload_file =
  originalname :: string
  mimetype :: string
  file_size :: nat

datatype tags_field = NoTags | TagsString string | TagsArray "string list"

text \<open>
  A request to \<open>POST /posts\<close>: the \<open>Authorization\<close> header, \<open>req.user\<close>, the text
  fields of the multipart body (\<open>tags\<close> is a string when the field comes once,
  an array when it is repeated) and \<open>req.file\<close>, the file of the field \<open>image\<close>.
\<close>

record post_request =
  authorization :: "string option"
  req_user :: "json option"
  userId :: "string option"
  postName :: "string option"
  description :: "string option"
  tags :: tags_field
  req_file :: "upload_file option"

definition header_token :: "post_request \<Rightarrow> string option" where
  "header_token req = map_option (replace ''Bearer '' '''') (authorization req)"

text \<open>
  \<open>auth\<close> answers itself (\<open>Inl\<close>) or calls \<open>next()\<close> on the request with
  \<open>req.user\<close> set (\<open>Inr\<close>). It reads the request header and the signing secret
  only; the logger's output is not part of the model.
\<close>

definition auth :: "ext \<Rightarrow> post_request \<Rightarrow> response + post_request" where
  "auth x req =
     (case header_token req of
        None \<Rightarrow> Inl \<lparr>status = 401, body = obj [(''error'', Some (JStr ''Authentication required''))]\<rparr>
      | Some token \<Rightarrow>
          if token = [] then
            Inl \<lparr>status = 401, body = obj [(''error'', Some (JStr ''Authentication required''))]\<rparr>
          else
            (case jwt_verify x token of
               Some decoded \<Rightarrow> Inr (req\<lparr>req_user := Some decoded\<rparr>)
             | None \<Rightarrow> Inl \<lparr>status = 401, body = obj [(''error'', Some (JStr ''Invalid token''))]\<rparr>))"

section \<open>The auth service: routes/auth.js\<close>

text \<open>
  The body of a signup or login request; a field that is present is a string.
  \<open>findOne\<close> is \<open>User.findOne({ email })\<close>, the first user with that email.
\<close>

record credentials =
  body_name :: "string option"
  body_email :: "string option"
  body_password :: "string option"

definition findOne :: "user_doc list \<Rightarrow> string \<Rightarrow> user_doc option" where
  "findOne users email = find (\<lambda>u. user_email u = email) users"

definition signupValidation :: "ext \<Rightarrow> credentials \<Rightarrow> verror list" where
  "signupValidation x b =
     check (trim (toString (body_name b)) \<noteq> []) ''name'' ''Name is required'' @
     check (isEmail x (trim (toString (body_email b)))) ''email'' ''Valid email is required'' @
     check (6 \<le> length (toString (body_password b)))
       ''password'' ''Password must be at least 6 characters'' @
     check (matches_letter_and_digit (toString (body_password b)))
       ''password'' ''Password must contain at least one letter and one number''"

definition loginValidation :: "ext \<Rightarrow> credentials \<Rightarrow> verror list" where
  "loginValidation x b =
     check (isEmail x (trim (toString (body_email b)))) ''email'' ''Valid email is required'' @
     check (toString (body_password b) \<noteq> []) ''password'' ''Password is required''"

text \<open>
  The sanitizers of the chains write back into \<open>req.body\<close>: the handlers read
  the trimmed name and the trimmed, normalized email.
\<close>

definition validation_failed :: "verror list \<Rightarrow> response" where
  "validation_failed errors =
     \<lparr>status = 400,
      body = obj [(''success'', Some (JBool False)),
                  (''message'', Some (JStr ''Validation failed'')),
                  (''errors'', Some (errors_json errors))]\<rparr>"

definition authentication_failed :: response where
  "authentication_failed =
     \<lparr>status = 401,
      body = obj [(''success'', Some (JBool False)),
                  (''message'', Some (JStr ''Authentication failed'')),
                  (''error'', Some (JStr ''Invalid email or password''))]\<rparr>"

definition user_summary :: "string \<Rightarrow> string \<Rightarrow> string \<Rightarrow> json" where
  "user_summary i name email =
     obj [(''id'', Some (JStr i)), (''name'', Some (JStr name)), (''email'', Some (JStr email))]"

definition signup :: "ext \<Rightarrow> env \<Rightarrow> user_doc list \<Rightarrow> credentials \<Rightarrow> user_doc list \<times> response" where
  "signup x e users b =
     (let errors = signupValidation x b in
      if errors \<noteq> [] then (users, validation_failed errors)
      else
        let name = trim (toString (body_name b));
            email = normalizeEmail x (trim (toString (body_email b)));
            password = toString (body_password b)
        in case findOne users email of
             Some existingUser \<Rightarrow>
               (users,
                \<lparr>status = 400,
                 body = obj [(''success'', Some (JBool False)),
                             (''message'', Some (JStr ''Email already exists'')),
                             (''error'', Some (JStr ''User already registered with this email''))]\<rparr>)
           | None \<Rightarrow>
               let hashedPassword = bcrypt_hash x (salt e) password;
                   user = \<lparr>user_id = fresh_id e, user_name = name, user_email = email,
                           user_password = hashedPassword\<rparr>;
                   token = jwt_sign x (user_id user) (now e)
               in (users @ [user],
                   \<lparr>status = 201,
                    body = obj [(''success'', Some (JBool True)),
                                (''message'', Some (JStr ''User registered successfully'')),
                                (''data'', Some (obj [(''token'', Some (JStr token)),
                                                      (''user'', Some (user_summary (user_id user) name email))]))]\<rparr>))"

definition login :: "ext \<Rightarrow> env \<Rightarrow> user_doc list \<Rightarrow> credentials \<Rightarrow> response" where
  "login x e users b =
     (let errors = loginValidation x b in
      if errors \<noteq> [] then validation_failed errors
      else
        let email = normalizeEmail x (trim (toString (body_email b)));
            password = toString (body_password b)
        in case findOne users email of
             None \<Rightarrow> authentication_failed
           | Some user \<Rightarrow>
               if \<not> bcrypt_compare x password (user_password user) then authentication_failed
               else
                 let token = jwt_sign x (user_id user) (now e)
                 in \<lparr>status = 200,
                     body = obj [(''success'', Some (JBool True)),
                                 (''message'', Some (JStr ''Login successful'')),
                                 (''data'', Some (obj [(''token'', Some (JStr token)),
                                                       (''user'', Some (user_summary (user_id user) (user_name user) email))]))]\<rparr>)"

text \<open>
  The earlier draft of the login route (the unnamed source part 0): no
  sanitizer, status 400 for both failures, the token alone on success.
\<close>

definition loginValidation_draft :: "ext \<Rightarrow> credentials \<Rightarrow> verror list" where
  "loginValidation_draft x b =
     check (isEmail x (toString (body_email b))) ''email'' ''Valid email is required'' @
     check (toString (body_password b) \<noteq> []) ''password'' ''Password is required''"

definition login_draft :: "ext \<Rightarrow> env \<Rightarrow> user_doc list \<Rightarrow> credentials \<Rightarrow> response" where
  "login_draft x e users b =
     (let errors = loginValidation_draft x b
      in if errors \<noteq> [] then \<lparr>status = 400, body = obj [(''errors'', Some (errors_json errors))]\<rparr>
         else
           let email = toString (body_email b);
               password = toString (body_password b)
           in case findOne users email of
                None \<Rightarrow> \<lparr>status = 400, body = obj [(''error'', Some (JStr ''Invalid credentials''))]\<rparr>
              | Some user \<Rightarrow>
                  if \<not> bcrypt_compare x password (user_password user)
                  then \<lparr>status = 400, body = obj [(''error'', Some (JStr ''Invalid credentials''))]\<rparr>
                  else \<lparr>status = 200,
                        body = obj [(''token'', Some (JStr (jwt_sign x (user_id user) (now e))))]\<rparr>)"

section \<open>The post service: routes/posts.js\<close>

subsection \<open>The upload handler\<close>

text \<open>
  \<open>/jpeg|jpg|png/.test(s)\<close> holds when one of the three words occurs in \<open>s\<close>.
  \<open>upload\<close> is what \<open>upload.single('image')\<close> does with the file of the request:
  none, a file the filter refuses (a plain \<open>Error\<close>), a file that reaches
  \<open>limits.fileSize\<close> (a \<open>MulterError\<close>: the parser of multer 1.4.5-lts cuts a
  file at the limit and reports it, also when the file ends there), or a
  stored file, whose name it yields.
\<close>

definition filetypes :: "string \<Rightarrow> bool" where
  "filetypes s = (sublist ''jpeg'' s \<or> sublist ''jpg'' s \<or> sublist ''png'' s)"

definition fileFilter :: "ext \<Rightarrow> upload_file \<Rightarrow> bool" where
  "fileFilter x f =
     (let extname_ok = filetypes (toLowerCase (extname x (originalname f)));
          mimetype_ok = filetypes (mimetype f)
      in extname_ok \<and> mimetype_ok)"

definition fileSize_limit :: nat where
  "fileSize_limit = 5 * 1024 * 1024"

definition upload :: "ext \<Rightarrow> env \<Rightarrow> upload_file option \<Rightarrow> js_error + string option" where
  "upload x e f =
     (case f of
        None \<Rightarrow> Inr None
      | Some f \<Rightarrow>
          if \<not> fileFilter x f then Inl (Error ''Only JPEG, JPG, and PNG images are allowed'')
          else if fileSize_limit \<le> file_size f then Inl (MulterError ''File too large'')
          else Inr (Some (''image-'' @ uniqueSuffix e @ extname x (originalname f))))"

subsection \<open>Error handlers\<close>

text \<open>
  \<open>router_error_handler\<close> is the error middleware at the end of the router,
  \<open>errorHandler\<close> that of the application (middleware/errorHandler.js), which
  answers when the router has none; neither error carries a \<open>status\<close>.
\<close>

definition message :: "js_error \<Rightarrow> string" where
  "message err = (case err of Error m \<Rightarrow> m | MulterError m \<Rightarrow> m)"

definition router_error_handler :: "env \<Rightarrow> js_error \<Rightarrow> response" where
  "router_error_handler e err =
     (case err of
        MulterError m \<Rightarrow>
          \<lparr>status = 400,
           body = obj [(''success'', Some (JBool False)),
                       (''message'', Some (JStr ''File upload error'')),
                       (''error'', Some (JStr m))]\<rparr>
      | Error m \<Rightarrow>
          \<lparr>status = 500,
           body = obj [(''success'', Some (JBool False)),
                       (''message'', Some (JStr ''Internal server error'')),
                       (''error'', if development e then Some (JStr m) else None)]\<rparr>)"

definition errorHandler :: "js_error \<Rightarrow> response" where
  "errorHandler err =
     \<lparr>status = 500,
      body = obj [(''error'', Some (JStr (if message err \<noteq> [] then message err else ''Server Error'')))]\<rparr>"

subsection \<open>Creating a post\<close>

definition post_json :: "ext \<Rightarrow> post_doc \<Rightarrow> json" where
  "post_json x p =
     obj [(''_id'', Some (JStr (post_id p))),
          (''userId'', Some (JStr (post_userId p))),
          (''postName'', Some (JStr (post_postName p))),
          (''description'', Some (JStr (post_description p))),
          (''uploadTime'', Some (JStr (toISOString x (post_uploadTime p)))),
          (''tags'', Some (JArr (map JStr (post_tags p)))),
          (''imagePath'', Some (case post_imagePath p of None \<Rightarrow> JNull | Some path \<Rightarrow> JStr path))]"

definition postValidation :: "post_request \<Rightarrow> verror list" where
  "postValidation req =
     check (toString (userId req) \<noteq> []) ''userId'' ''User ID is required'' @
     check (trim (toString (postName req)) \<noteq> []) ''postName'' ''Post name is required'' @
     check (trim (toString (description req)) \<noteq> []) ''description'' ''Description is required'' @
     check (case tags req of TagsString s \<Rightarrow> False | _ \<Rightarrow> True)
       ''tags'' ''Tags must be an array of strings''"

text \<open>\<open>req.user.id\<close>, \<open>undefined\<close> when the payload has no such property.\<close>

definition user_id_of :: "post_request \<Rightarrow> json option" where
  "user_id_of req = (case req_user req of None \<Rightarrow> None | Some u \<Rightarrow> js_get ''id'' u)"

definition create_post ::
  "ext \<Rightarrow> env \<Rightarrow> post_doc list \<Rightarrow> post_request \<Rightarrow> post_doc list \<times> response" where
  "create_post x e posts request =
     (case auth x request of
        Inl res \<Rightarrow> (posts, res)
      | Inr req \<Rightarrow>
          (case upload x e (req_file req) of
             Inl err \<Rightarrow> (posts, router_error_handler e err)
           | Inr filename \<Rightarrow>
               let errors = postValidation req in
               if errors \<noteq> [] then (posts, validation_failed errors)
               else if \<not> truthy (req_user req) \<or> \<not> truthy (user_id_of req) then
                 (posts,
                  \<lparr>status = 401,
                   body = obj [(''success'', Some (JBool False)),
                               (''message'', Some (JStr ''Authentication failed'')),
                               (''error'', Some (JStr ''No authenticated user found''))]\<rparr>)
               else if user_id_of req \<noteq> Some (JStr (toString (userId req))) then
                 (posts,
                  \<lparr>status = 403,
                   body = obj [(''success'', Some (JBool False)),
                               (''message'', Some (JStr ''Unauthorized'')),
                               (''error'', Some (JStr ''You can only create posts for yourself''))]\<rparr>)
               else
                 let imagePath = map_option (\<lambda>name. ''/uploads/'' @ name) filename;
                     post = \<lparr>post_id = fresh_id e,
                             post_userId = toString (userId req),
                             post_postName = trim (toString (postName req)),
                             post_description = trim (toString (description req)),
                             post_uploadTime = now e,
                             post_tags = (case tags req of TagsArray ts \<Rightarrow> ts | _ \<Rightarrow> []),
                             post_imagePath = imagePath\<rparr>
                 in (posts @ [post],
                     \<lparr>status = 201,
                      body = obj [(''success'', Some (JBool True)),
                                  (''message'', Some (JStr ''Post created successfully'')),
                                  (''data'', Some (post_json x post))]\<rparr>)))"

text \<open>
  The first draft of the route in the same file: no router error handler, no
  trimming, no check of \<open>tags\<close> (the schema's array takes a single string as a
  one-element array), the post itself as the body.
\<close>

definition postValidation_draft :: "post_request \<Rightarrow> verror list" where
  "postValidation_draft req =
     check (toString (userId req) \<noteq> []) ''userId'' ''User ID is required'' @
     check (toString (postName req) \<noteq> []) ''postName'' ''Post name is required'' @
     check (toString (description req) \<noteq> []) ''description'' ''Description is required''"

definition create_post_draft ::
  "ext \<Rightarrow> env \<Rightarrow> post_doc list \<Rightarrow> post_request \<Rightarrow> post_doc list \<times> response" where
  "create_post_draft x e posts request =
     (case auth x request of
        Inl res \<Rightarrow> (posts, res)
      | Inr req \<Rightarrow>
          (case upload x e (req_file req) of
             Inl err \<Rightarrow> (posts, errorHandler err)
           | Inr filename \<Rightarrow>
               let errors = postValidation_draft req in
               if errors \<noteq> [] then
                 (posts, \<lparr>status = 400, body = obj [(''errors'', Some (errors_json errors))]\<rparr>)
               else if user_id_of req \<noteq> Some (JStr (toString (userId req))) then
                 (posts, \<lparr>status = 403, body = obj [(''error'', Some (JStr ''Unauthorized''))]\<rparr>)
               else
                 let imagePath = map_option (\<lambda>name. ''/uploads/'' @ name) filename;
                     post = \<lparr>post_id = fresh_id e,
                             post_userId = toString (userId req),
                             post_postName = toString (postName req),
                             post_description = toString (description req),
                             post_uploadTime = now e,
                             post_tags = (case tags req of
                                            NoTags \<Rightarrow> []
                                          | TagsString s \<Rightarrow> [s]
                                          | TagsArray ts \<Rightarrow> ts),
                             post_imagePath = imagePath\<rparr>
                 in (posts @ [post], \<lparr>status = 201, body = post_json x post\<rparr>)))"

subsection \<open>Listing posts\<close>

text \<open>
  The query string of \<open>GET /posts\<close>; a parameter that is present is a string.
  \<open>optional\<close> skips the chain of an absent parameter; \<open>if_truthy\<close> is the
  value of a parameter that \<open>if (v)\<close> accepts: present and not empty.
\<close>

record list_query =
  q_searchText :: "string option"
  q_startDate :: "string option"
  q_endDate :: "string option"
  q_tags :: "string option"
  q_page :: "string option"
  q_limit :: "string option"

definition optional :: "string option \<Rightarrow> (string \<Rightarrow> verror list) \<Rightarrow> verror list" where
  "optional v chain = (case v of None \<Rightarrow> [] | Some s \<Rightarrow> chain s)"

definition if_truthy :: "string option \<Rightarrow> string option" where
  "if_truthy v = (case v of None \<Rightarrow> None | Some s \<Rightarrow> if s = [] then None else Some s)"

definition searchValidation :: "ext \<Rightarrow> list_query \<Rightarrow> verror list" where
  "searchValidation x q =
     optional (q_startDate q)
       (\<lambda>s. check (isISO8601 x s) ''startDate'' ''Start date must be a valid ISO date'') @
     optional (q_endDate q)
       (\<lambda>s. check (isISO8601 x s) ''endDate'' ''End date must be a valid ISO date'') @
     optional (q_page q)
       (\<lambda>s. check (isInt x (Some 1) None s) ''page'' ''Page must be a positive integer'') @
     optional (q_limit q)
       (\<lambda>s. check (isInt x (Some 1) (Some 100) s) ''limit'' ''Limit must be between 1 and 100'')"

text \<open>
  The query object the handler builds. A date is \<open>new Date(s)\<close>: its time value,
  or \<open>None\<close> for an invalid date, which compares false with everything.
\<close>

record post_query =
  or_regex :: "string option"
  uploadTime_gte :: "int option option"
  uploadTime_lte :: "int option option"
  tags_in :: "string list option"

definition date_gt :: "int option \<Rightarrow> int option \<Rightarrow> bool" where
  "date_gt a b = (case (a, b) of (Some m, Some n) \<Rightarrow> n < m | _ \<Rightarrow> False)"

text \<open>
  Modelled from the spec: the Content Store, which is reached through the Post
  model (models/Post) and is not part of the sources. A query is cast and
  compiled before it runs: an invalid date or a pattern the database rejects
  makes \<open>find\<close> and \<open>countDocuments\<close> throw. A post matches when the pattern
  matches its name or its description, its upload time is within the
  inclusive bounds, and one of its tags is in the list.
\<close>

definition cast_date :: "ext \<Rightarrow> int option option \<Rightarrow> js_error + int option" where
  "cast_date x d =
     (case d of
        None \<Rightarrow> Inr None
      | Some None \<Rightarrow> Inl (castError x ''uploadTime'')
      | Some (Some t) \<Rightarrow> Inr (Some t))"

definition compile_query :: "ext \<Rightarrow> post_query \<Rightarrow> js_error + (post_doc \<Rightarrow> bool)" where
  "compile_query x query =
     (case cast_date x (uploadTime_gte query) of
        Inl err \<Rightarrow> Inl err
      | Inr gte \<Rightarrow>
          (case cast_date x (uploadTime_lte query) of
             Inl err \<Rightarrow> Inl err
           | Inr lte \<Rightarrow>
               (case (case or_regex query of
                        None \<Rightarrow> Inr (\<lambda>s. True)
                      | Some pattern \<Rightarrow> regex x pattern) of
                  Inl err \<Rightarrow> Inl err
                | Inr matches \<Rightarrow>
                    Inr (\<lambda>p. (matches (post_postName p) \<or> matches (post_description p)) \<and>
                              (case gte of None \<Rightarrow> True | Some t \<Rightarrow> t \<le> post_uploadTime p) \<and>
                              (case lte of None \<Rightarrow> True | Some t \<Rightarrow> post_uploadTime p \<le> t) \<and>
                              (case tags_in query of
                                 None \<Rightarrow> True
                               | Some ts \<Rightarrow> \<exists>t \<in> set (post_tags p). t \<in> set ts)))))"

text \<open>
  Modelled from the spec: the order of a sorted \<open>find\<close>, which the Post model
  and the database decide and the sources do not show. The spec asks for the
  newest upload time first and for posts of equal upload time in insertion
  order. \<open>sort_posts\<close> is given the sort object of the route, a path and a
  direction: on the path \<open>uploadTime\<close> it is the stable sort by upload time,
  descending when the direction is negative; no other path is modelled, and
  on it the posts stay as they are.
\<close>

definition sort_posts :: "string \<times> int \<Rightarrow> post_doc list \<Rightarrow> post_doc list" where
  "sort_posts key ps =
     (case key of
        (path, direction) \<Rightarrow>
          if path = ''uploadTime'' then sort_key (\<lambda>p. direction * post_uploadTime p) ps
          else ps)"

text \<open>
  Modelled from the spec: \<open>skip\<close> and \<open>limit\<close>. A \<open>skip\<close> that is an integer from 0
  to \<open>2 ^ 53\<close> and a \<open>limit\<close> that is an integer from 1 to \<open>2 ^ 53\<close> are the
  number of documents to skip and the most to return; what the database does
  with other numbers is \<open>odd_window\<close>. \<open>find\<close> sorts the matching posts, then
  skips, then limits, whatever the order of the calls that build it.
\<close>

definition window :: "ext \<Rightarrow> js_num \<Rightarrow> js_num \<Rightarrow> js_error + nat \<times> nat option" where
  "window x skip limit =
     (case (skip, limit) of
        (Num s, Num l) \<Rightarrow>
          if s \<in> \<int> \<and> 0 \<le> s \<and> s \<le> 2 ^ 53 \<and> l \<in> \<int> \<and> 1 \<le> l \<and> l \<le> 2 ^ 53
          then Inr (nat \<lfloor>s\<rfloor>, Some (nat \<lfloor>l\<rfloor>))
          else odd_window x skip limit
      | _ \<Rightarrow> odd_window x skip limit)"

definition find_posts ::
  "ext \<Rightarrow> post_doc list \<Rightarrow> post_query \<Rightarrow> js_num \<Rightarrow> js_num \<Rightarrow> string \<times> int \<Rightarrow>
   js_error + post_doc list" where
  "find_posts x posts query skip limit key =
     (case compile_query x query of
        Inl err \<Rightarrow> Inl err
      | Inr matching \<Rightarrow>
          (case window x skip limit of
             Inl err \<Rightarrow> Inl err
           | Inr (k, n) \<Rightarrow>
               let rest = drop k (sort_posts key (filter matching posts))
               in Inr (case n of None \<Rightarrow> rest | Some m \<Rightarrow> take m rest)))"

definition countDocuments :: "ext \<Rightarrow> post_doc list \<Rightarrow> post_query \<Rightarrow> js_error + nat" where
  "countDocuments x posts query =
     (case compile_query x query of
        Inl err \<Rightarrow> Inl err
      | Inr matching \<Rightarrow> Inr (length (filter matching posts)))"

text \<open>
  \<open>page\<close> and \<open>limit\<close> after destructuring are the string of the query or the
  default, a number. \<open>to_number\<close> is the coercion of such a value in
  \<open>page - 1\<close>, \<open>* limit\<close> and \<open>total / limit\<close>, \<open>parse_int\<close> is \<open>parseInt\<close> of it.
\<close>

definition to_number :: "ext \<Rightarrow> string option \<Rightarrow> real \<Rightarrow> js_num" where
  "to_number x v d = (case v of None \<Rightarrow> Num d | Some s \<Rightarrow> string_number x s)"

definition parse_int :: "ext \<Rightarrow> string option \<Rightarrow> real \<Rightarrow> js_num" where
  "parse_int x v d = (case v of None \<Rightarrow> Num d | Some s \<Rightarrow> string_parseInt x s)"

definition build_query :: "ext \<Rightarrow> list_query \<Rightarrow> post_query" where
  "build_query x q =
     (let searchText = map_option (\<lambda>s. escape (trim s)) (q_searchText q);
          tags = map_option trim (q_tags q)
      in \<lparr>or_regex = if_truthy searchText,
          uploadTime_gte = map_option (parseDate x) (if_truthy (q_startDate q)),
          uploadTime_lte = map_option (parseDate x) (if_truthy (q_endDate q)),
          tags_in = map_option (\<lambda>t. map trim (split CHR '','' t)) (if_truthy tags)\<rparr>)"

definition invalid_date_range :: "ext \<Rightarrow> list_query \<Rightarrow> bool" where
  "invalid_date_range x q =
     (case (if_truthy (q_startDate q), if_truthy (q_endDate q)) of
        (Some startDate, Some endDate) \<Rightarrow> date_gt (parseDate x startDate) (parseDate x endDate)
      | _ \<Rightarrow> False)"

definition list_posts :: "ext \<Rightarrow> env \<Rightarrow> post_doc list \<Rightarrow> list_query \<Rightarrow> response" where
  "list_posts x e posts q =
     (let errors = searchValidation x q in
      if errors \<noteq> [] then
        \<lparr>status = 400,
         body = obj [(''success'', Some (JBool False)),
                     (''message'', Some (JStr ''Invalid query parameters'')),
                     (''errors'', Some (errors_json errors))]\<rparr>
      else
        let page = q_page q;
            limit = q_limit q;
            query = build_query x q
        in
        if invalid_date_range x q then
          \<lparr>status = 400,
           body = obj [(''success'', Some (JBool False)),
                       (''message'', Some (JStr ''Invalid date range'')),
                       (''error'', Some (JStr ''startDate cannot be after endDate''))]\<rparr>
        else
          let skip = js_mul x (js_sub x (to_number x page 1) (Num 1)) (to_number x limit 10) in
          (case find_posts x posts query skip (parse_int x limit 10) (''uploadTime'', - 1) of
             Inl err \<Rightarrow> router_error_handler e err
           | Inr found \<Rightarrow>
               (case countDocuments x posts query of
                  Inl err \<Rightarrow> router_error_handler e err
                | Inr n \<Rightarrow>
                    \<lparr>status = 200,
                     body = obj [(''success'', Some (JBool True)),
                                 (''message'', Some (JStr ''Posts retrieved successfully'')),
                                 (''data'',
                                  Some (obj [(''posts'', Some (JArr (map (post_json x) found))),
                                             (''total'', Some (num_json (js_number x (real n)))),
                                             (''page'', Some (num_json (parse_int x page 1))),
                                             (''pages'',
                                              Some (num_json
                                                (js_ceil (js_div x (js_number x (real n))
                                                   (to_number x limit 10))))),
                                             (''limit'', Some (num_json (parse_int x limit 10)))]))]\<rparr>)))"

text \<open>
  The first version of the route in the same file: no validation of the query
  string, the search text and the tags as they come, no check of the date
  range, the error handler of the application, and the result itself as the
  body.
\<close>

definition build_query_draft :: "ext \<Rightarrow> list_query \<Rightarrow> post_query" where
  "build_query_draft x q =
     \<lparr>or_regex = if_truthy (q_searchText q),
      uploadTime_gte = map_option (parseDate x) (if_truthy (q_startDate q)),
      uploadTime_lte = map_option (parseDate x) (if_truthy (q_endDate q)),
      tags_in = map_option (split CHR '','') (if_truthy (q_tags q))\<rparr>"

definition list_posts_draft :: "ext \<Rightarrow> post_doc list \<Rightarrow> list_query \<Rightarrow> response" where
  "list_posts_draft x posts q =
     (let page = q_page q;
          limit = q_limit q;
          query = build_query_draft x q;
          skip = js_mul x (js_sub x (to_number x page 1) (Num 1)) (to_number x limit 10)
      in case find_posts x posts query skip (parse_int x limit 10) (''uploadTime'', - 1) of
           Inl err \<Rightarrow> errorHandler err
         | Inr found \<Rightarrow>
             (case countDocuments x posts query of
                Inl err \<Rightarrow> errorHandler err
              | Inr n \<Rightarrow>
                  \<lparr>status = 200,
                   body = obj [(''posts'', Some (JArr (map (post_json x) found))),
                               (''total'', Some (num_json (js_number x (real n)))),
                               (''page'', Some (num_json (parse_int x page 1))),
                               (''pages'',
                                Some (num_json
                                  (js_ceil (js_div x (js_number x (real n))
                                     (to_number x limit 10)))))]\<rparr>))"

section \<open>Notions used to state the properties\<close>

text \<open>
  These follow the words of the claims, not the code of the routes. A list is
  newest first when no post comes before a post with a later upload time.
\<close>

definition newest_first :: "post_doc list \<Rightarrow> bool" where
  "newest_first ps = sorted_wrt (\<lambda>p q. post_uploadTime q \<le> post_uploadTime p) ps"

text \<open>
  The filters of a query string, read off the string itself. The search text,
  trimmed and escaped, is a pattern for the name or the description; the dates
  bound the upload time, inclusively; the tags are the trimmed pieces between
  commas, one of which the post must carry. An empty parameter filters
  nothing. The filters are valid when the pattern is one the database accepts,
  the dates are ISO 8601 dates that \<open>Date\<close> reads, and the start is not after
  the end.
\<close>

definition matches_filters :: "ext \<Rightarrow> list_query \<Rightarrow> post_doc \<Rightarrow> bool" where
  "matches_filters x q p =
     ((case q_searchText q of
         None \<Rightarrow> True
       | Some s \<Rightarrow>
           escape (trim s) = [] \<or>
           (case regex x (escape (trim s)) of
              Inl err \<Rightarrow> False
            | Inr matches \<Rightarrow> matches (post_postName p) \<or> matches (post_description p))) \<and>
      (case q_startDate q of
         None \<Rightarrow> True
       | Some s \<Rightarrow>
           s = [] \<or> (case parseDate x s of None \<Rightarrow> False | Some t \<Rightarrow> t \<le> post_uploadTime p)) \<and>
      (case q_endDate q of
         None \<Rightarrow> True
       | Some s \<Rightarrow>
           s = [] \<or> (case parseDate x s of None \<Rightarrow> False | Some t \<Rightarrow> post_uploadTime p \<le> t)) \<and>
      (case q_tags q of
         None \<Rightarrow> True
       | Some s \<Rightarrow>
           trim s = [] \<or> (\<exists>t \<in> set (post_tags p). t \<in> set (map trim (split CHR '','' (trim s))))))"

definition valid_filters :: "ext \<Rightarrow> list_query \<Rightarrow> bool" where
  "valid_filters x q =
     ((case q_searchText q of
         None \<Rightarrow> True
       | Some s \<Rightarrow>
           escape (trim s) = [] \<or>
           (case regex x (escape (trim s)) of Inl err \<Rightarrow> False | Inr matches \<Rightarrow> True)) \<and>
      (case q_startDate q of
         None \<Rightarrow> True
       | Some s \<Rightarrow> isISO8601 x s \<and> (s = [] \<or> parseDate x s \<noteq> None)) \<and>
      (case q_endDate q of
         None \<Rightarrow> True
       | Some s \<Rightarrow> isISO8601 x s \<and> (s = [] \<or> parseDate x s \<noteq> None)) \<and>
      (case (q_startDate q, q_endDate q) of
         (Some s, Some t) \<Rightarrow>
           s = [] \<or> t = [] \<or>
           (case (parseDate x s, parseDate x t) of (Some a, Some b) \<Rightarrow> a \<le> b | _ \<Rightarrow> True)
       | _ \<Rightarrow> True))"

text \<open>
  The page or the limit that a request asks for: the default when the
  parameter is absent, the integer that the string stands for otherwise.
\<close>

definition asks_for :: "string option \<Rightarrow> int \<Rightarrow> int \<Rightarrow> bool" where
  "asks_for v d n = (case v of None \<Rightarrow> n = d | Some s \<Rightarrow> js_int s = Some n)"

text \<open>
  What binary64 arithmetic promises of a rounded result in the range of the
  normal numbers: a number, within a relative error of \<open>2 ^ -53\<close>.
\<close>

definition binary64 :: "(real \<Rightarrow> js_num) \<Rightarrow> bool" where
  "binary64 fl =
     (\<forall>r. 1 / 2 ^ 1022 \<le> r \<and> r < 2 ^ 1023 \<longrightarrow> (\<exists>d. fl r = Num d \<and> \<bar>d - r\<bar> * 2 ^ 53 \<le> r))"

text \<open>The property \<open>k\<close> of the \<open>data\<close> of a response.\<close>

definition data_get :: "string \<Rightarrow> response \<Rightarrow> json option" where
  "data_get k res = (case js_get ''data'' (body res) of None \<Rightarrow> None | Some d \<Rightarrow> js_get k d)"

text \<open>
  The store holds the posts in the order in which they were inserted. Posts
  of equal upload time are in insertion order in a list when those of each
  time follow one another there as they do in the store.
\<close>

definition ties_in_insertion_order :: "post_doc list \<Rightarrow> post_doc list \<Rightarrow> bool" where
  "ties_in_insertion_order posts ps =
     (\<forall>t \<in> set (map post_uploadTime ps). subseq (filter (\<lambda>p. post_uploadTime p = t) ps) posts)"

text \<open>Two requests ask for pages of the same listing when their filters are the same.\<close>

definition same_filters :: "list_query \<Rightarrow> list_query \<Rightarrow> bool" where
  "same_filters q q' =
     (q_searchText q' = q_searchText q \<and> q_startDate q' = q_startDate q \<and>
      q_endDate q' = q_endDate q \<and> q_tags q' = q_tags q)"

text \<open>
  The first version of the route takes the search text as the pattern and the
  tags as they are between the commas. Both versions read the same filters
  from a query whose search text has no padding and no character to escape
  and whose tags have no padding.
\<close>

definition plain_filters :: "list_query \<Rightarrow> bool" where
  "plain_filters q =
     ((case q_searchText q of None \<Rightarrow> True | Some s \<Rightarrow> escape (trim s) = s) \<and>
      (case q_tags q of
         None \<Rightarrow> True
       | Some t \<Rightarrow> trim t = t \<and> map trim (split CHR '','' t) = split CHR '','' t))"

text \<open>
  The fields of a post as the spec asks for them: an owner id, a name and a
  description that are not empty, and tags that, when present, are a list. The
  later version of the route takes a name or a description of blanks as
  empty; the first version does not, and takes a single tag as a list of one.
\<close>

definition fields_given :: "post_request \<Rightarrow> bool" where
  "fields_given req =
     ((case userId req of None \<Rightarrow> False | Some u \<Rightarrow> u \<noteq> []) \<and>
      (case postName req of None \<Rightarrow> False | Some n \<Rightarrow> trim n \<noteq> []) \<and>
      (case description req of None \<Rightarrow> False | Some d \<Rightarrow> trim d \<noteq> []) \<and>
      (case tags req of TagsString s \<Rightarrow> False | _ \<Rightarrow> True))"

definition fields_given_draft :: "post_request \<Rightarrow> bool" where
  "fields_given_draft req =
     ((case userId req of None \<Rightarrow> False | Some u \<Rightarrow> u \<noteq> []) \<and>
      (case postName req of None \<Rightarrow> False | Some n \<Rightarrow> n \<noteq> []) \<and>
      (case description req of None \<Rightarrow> False | Some d \<Rightarrow> d \<noteq> []))"

subsection \<open>An instance of the collaborators, to run the routes on examples\<close>

definition demo_ext :: ext where
  "demo_ext =
     \<lparr>isEmail = (\<lambda>s. CHR ''@'' \<in> set s),
      normalizeEmail = toLowerCase,
      isISO8601 = (\<lambda>s. s \<in> set [''2024-03-01'', ''2024-03-02'', ''2024-W10'']),
      bcrypt_hash = (\<lambda>s p. s @ ''$'' @ p),
      bcrypt_compare = (\<lambda>p h. dropWhile (\<lambda>c. c \<noteq> CHR ''$'') h = ''$'' @ p),
      jwt_sign = (\<lambda>i t. ''token-'' @ i),
      jwt_verify = (\<lambda>t. if prefix ''token-'' t then Some (JObj [(''id'', JStr (drop 6 t))]) else None),
      extname = (\<lambda>s. dropWhile (\<lambda>c. c \<noteq> CHR ''.'') s),
      parseDate = (\<lambda>s. if s = ''2024-03-01'' then Some 1709251200000
                        else if s = ''2024-03-02'' then Some 1709337600000
                        else None),
      toISOString = (\<lambda>t. ''1970-01-01T00:00:00.000Z''),
      regex = (\<lambda>pattern. Inr (\<lambda>s. sublist pattern s)),
      castError = (\<lambda>path. Error ''Cast to date failed''),
      toNumber = (\<lambda>s. NaN),
      parseInt = (\<lambda>s. NaN),
      round64 = Num,
      odd_window = (\<lambda>skip limit. Inl (Error ''Invalid skip or limit''))\<rparr>"

definition demo_env :: env where
  "demo_env = \<lparr>now = 1000, salt = ''salt'', fresh_id = ''id1'', uniqueSuffix = ''1000-5'',
               development = False\<rparr>"

definition demo_request :: post_request where
  "demo_request =
     \<lparr>authorization = Some ''Bearer token-u1'', req_user = None, userId = Some ''u1'',
      postName = Some ''Hello'', description = Some ''World'', tags = NoTags, req_file = None\<rparr>"

definition demo_credentials :: credentials where
  "demo_credentials =
     \<lparr>body_name = Some ''Ann'', body_email = Some ''Ann@X.com '', body_password = Some ''abc123''\<rparr>"

definition demo_user :: user_doc where
  "demo_user =
     \<lparr>user_id = ''u1'', user_name = ''Ann'', user_email = ''ann@x.com'',
      user_password = ''salt$abc123''\<rparr>"

definition demo_post :: "string \<Rightarrow> int \<Rightarrow> post_doc" where
  "demo_post i t =
     \<lparr>post_id = i, post_userId = ''u1'', post_postName = ''Hello'', post_description = ''World'',
      post_uploadTime = t, post_tags = [], post_imagePath = None\<rparr>"

definition demo_query :: list_query where
  "demo_query =
     \<lparr>q_searchText = None, q_startDate = None, q_endDate = None, q_tags = None,
      q_page = None, q_limit = None\<rparr>"


definition demo_ties :: "post_doc list" where
  "demo_ties = [demo_post ''a'' 5, demo_post ''b'' 5, demo_post ''c'' 7]"

section \<open>Lemmas about the helpers\<close>

lemma demo_ext_simps:
  "isEmail demo_ext = (\<lambda>s. CHR ''@'' \<in> set s)"
  "normalizeEmail demo_ext = toLowerCase"
  "isISO8601 demo_ext = (\<lambda>s. s \<in> set [''2024-03-01'', ''2024-03-02'', ''2024-W10''])"
  "bcrypt_hash demo_ext = (\<lambda>s p. s @ ''$'' @ p)"
  "bcrypt_compare demo_ext = (\<lambda>p h. dropWhile (\<lambda>c. c \<noteq> CHR ''$'') h = ''$'' @ p)"
  "jwt_sign demo_ext = (\<lambda>i t. ''token-'' @ i)"
  "jwt_verify demo_ext =
     (\<lambda>t. if prefix ''token-'' t then Some (JObj [(''id'', JStr (drop 6 t))]) else None)"
  "extname demo_ext = (\<lambda>s. dropWhile (\<lambda>c. c \<noteq> CHR ''.'') s)"
  "parseDate demo_ext =
     (\<lambda>s. if s = ''2024-03-01'' then Some 1709251200000
          else if s = ''2024-03-02'' then Some 1709337600000
          else None)"
  "toISOString demo_ext = (\<lambda>t. ''1970-01-01T00:00:00.000Z'')"
  "regex demo_ext = (\<lambda>pattern. Inr (\<lambda>s. sublist pattern s))"
  "castError demo_ext = (\<lambda>path. Error ''Cast to date failed'')"
  "toNumber demo_ext = (\<lambda>s. NaN)"
  "parseInt demo_ext = (\<lambda>s. NaN)"
  "round64 demo_ext = Num"
  "odd_window demo_ext = (\<lambda>skip limit. Inl (Error ''Invalid skip or limit''))"
  by (simp_all add: demo_ext_def)

text \<open>A string without the pattern is left as it is.\<close>

lemma replace_no_occurrence: "\<not> sublist pat s \<Longrightarrow> replace pat rep s = s"
proof (induction s)
  case Nil
  then show ?case by auto
next
  case (Cons c cs)
  then show ?case by (auto simp: sublist_Cons_right)
qed

text \<open>
  The occurrence that starts after \<open>a\<close> is the leftmost one when the pattern
  does not occur in \<open>a\<close> followed by all but the last character of the pattern;
  it is the one replaced.
\<close>

lemma replace_first_occurrence:
  assumes "pat \<noteq> []" "\<not> sublist pat (a @ butlast pat)"
  shows "replace pat rep (a @ pat @ b) = a @ rep @ b"
  using assms(2)
proof (induction a)
  case Nil
  from assms(1) obtain c cs where "pat @ b = c # cs" by (cases pat) auto
  then show ?case using assms(1) by (cases pat) auto
next
  case (Cons c a)
  have np: "\<not> prefix pat (c # a @ pat @ b)"
  proof
    assume p: "prefix pat (c # a @ pat @ b)"
    have "length pat \<le> length ((c # a) @ butlast pat)"
      using assms(1) by simp
    moreover have "(c # a) @ pat @ b = ((c # a) @ butlast pat) @ (last pat # b)"
      using assms(1) by simp
    ultimately have "prefix pat ((c # a) @ butlast pat)"
      using p by (metis append_Cons prefix_length_prefix prefixI)
    then have "sublist pat ((c # a) @ butlast pat)"
      by (rule prefix_imp_sublist)
    then show False using Cons.prems by simp
  qed
  have "\<not> sublist pat (a @ butlast pat)"
    using Cons.prems by (auto simp: sublist_Cons_right)
  then show ?case using Cons.IH np by simp
qed


lemma findOne_Some_iff:
  "(\<exists>u. findOne users email = Some u) \<longleftrightarrow> (\<exists>u \<in> set users. user_email u = email)"
  by (induction users) (auto simp: findOne_def)

lemma check_Nil [simp]: "check ok param msg = [] \<longleftrightarrow> ok"
  by (simp add: check_def)

lemma signupValidation_Nil:
  "signupValidation x b = [] \<longleftrightarrow>
     trim (toString (body_name b)) \<noteq> [] \<and> isEmail x (trim (toString (body_email b))) \<and>
     6 \<le> length (toString (body_password b)) \<and>
     matches_letter_and_digit (toString (body_password b))"
  by (simp add: signupValidation_def)

lemma demo_strings:
  "trim ''Ann'' = ''Ann''" "trim ''Ann@X.com '' = ''Ann@X.com''"
  "toLowerCase ''Ann@X.com'' = ''ann@x.com''"
  "matches_letter_and_digit ''abc123''" "\<not> matches_letter_and_digit ''abc''"
  by (simp_all add: trim_def is_space_def toLowerCase_def lower_char_def
      matches_letter_and_digit_def is_line_terminator_def is_letter_def is_digit_def)

lemma auth_keeps_body:
  assumes "auth x request = Inr req"
  shows "userId req = userId request" "postName req = postName request"
    "description req = description request" "tags req = tags request"
    "req_file req = req_file request"
  using assms by (auto simp: auth_def split: option.splits if_splits)

lemma router_error_handler_status:
  "status (router_error_handler e err) = (case err of MulterError m \<Rightarrow> 400 | Error m \<Rightarrow> 500)"
  by (cases err) (simp_all add: router_error_handler_def)

text \<open>
  What the upload handler does with a file, and the answer of the route: a
  file of 5 MiB or more that the filter lets through is answered with 400, a
  file that the filter refuses with 500, whatever its size.
\<close>

lemma create_post_upload_errors:
  assumes "auth x request = Inr req" "req_file request = Some f"
  shows "\<not> fileFilter x f \<Longrightarrow>
           fst (create_post x e posts request) = posts \<and>
           status (snd (create_post x e posts request)) = 500"
    and "fileFilter x f \<Longrightarrow> fileSize_limit \<le> file_size f \<Longrightarrow>
           fst (create_post x e posts request) = posts \<and>
           status (snd (create_post x e posts request)) = 400"
  using assms auth_keeps_body(5) [OF assms(1)]
  by (simp_all add: create_post_def upload_def router_error_handler_def)

text \<open>
  The filter looks for the three words anywhere in the extension and in the
  content type: a file \<open>photo.xpng\<close> of type \<open>image/png\<close> is stored and the post
  is created.
\<close>

lemma create_post_unanchored_extension:
  "fileFilter demo_ext \<lparr>originalname = ''photo.xpng'', mimetype = ''image/png'', file_size = 10\<rparr> \<and>
   status (snd (create_post demo_ext demo_env []
                  (demo_request\<lparr>req_file := Some \<lparr>originalname = ''photo.xpng'',
                                                   mimetype = ''image/png'', file_size = 10\<rparr>\<rparr>))) = 201 \<and>
   length (fst (create_post demo_ext demo_env []
                  (demo_request\<lparr>req_file := Some \<lparr>originalname = ''photo.xpng'',
                                                   mimetype = ''image/png'', file_size = 10\<rparr>\<rparr>))) = 1"
  by (simp add: create_post_def auth_def header_token_def demo_request_def demo_ext_simps
      upload_def fileFilter_def filetypes_def sublist_code toLowerCase_def lower_char_def
      fileSize_limit_def postValidation_def toString_def trim_def is_space_def
      user_id_of_def Let_def)

subsection \<open>Numbers, and the query of a listing\<close>

lemma js_number_int: "\<bar>n\<bar> \<le> 2 ^ 53 \<Longrightarrow> js_number x (of_int n) = Num (of_int n)"
proof -
  assume "\<bar>n\<bar> \<le> 2 ^ 53"
  then have "\<bar>real_of_int n\<bar> \<le> 2 ^ 53"
    by (metis of_int_abs of_int_le_iff of_int_numeral of_int_power)
  then show ?thesis by (simp add: js_number_def)
qed

lemma asks_for_number:
  assumes "asks_for v d n" "\<bar>n\<bar> \<le> 2 ^ 53" "\<bar>d\<bar> \<le> 2 ^ 53"
  shows "to_number x v (of_int d) = Num (of_int n)" "parse_int x v (of_int d) = Num (of_int n)"
  using assms
  by (auto simp: asks_for_def to_number_def parse_int_def string_number_def string_parseInt_def
      js_number_int split: option.splits)

lemma optional_Nil:
  "optional v chain = [] \<longleftrightarrow> (\<forall>s. v = Some s \<longrightarrow> chain s = [])"
  by (cases v) (simp_all add: optional_def)

lemma asks_for_isInt:
  assumes "asks_for v d n" "v = Some s" "\<bar>n\<bar> \<le> 2 ^ 53"
  shows "isInt x (Some lo) None s \<longleftrightarrow> lo \<le> of_int n"
    and "isInt x (Some lo) (Some hi) s \<longleftrightarrow> lo \<le> of_int n \<and> of_int n \<le> hi"
  using assms
  by (auto simp: asks_for_def isInt_def string_number_def js_number_int)

lemma searchValidation_valid:
  assumes "valid_filters x q"
    and "asks_for (q_page q) 1 p" "1 \<le> p" "p \<le> 2 ^ 53"
    and "asks_for (q_limit q) 10 l" "1 \<le> l" "l \<le> 100"
  shows "searchValidation x q = []"
proof -
  have dates: "\<forall>s. q_startDate q = Some s \<longrightarrow> isISO8601 x s"
    "\<forall>s. q_endDate q = Some s \<longrightarrow> isISO8601 x s"
    using assms(1) by (auto simp: valid_filters_def split: option.splits)
  have page: "\<forall>s. q_page q = Some s \<longrightarrow> isInt x (Some 1) None s"
    using asks_for_isInt(1) [OF assms(2), of _ x 1] assms(3,4) by auto
  have limit: "\<forall>s. q_limit q = Some s \<longrightarrow> isInt x (Some 1) (Some 100) s"
    using asks_for_isInt(2) [OF assms(5), of _ x 1 100] assms(6,7) by auto
  show ?thesis
    using dates page limit by (simp add: searchValidation_def optional_Nil)
qed

lemma valid_filters_range: "valid_filters x q \<Longrightarrow> \<not> invalid_date_range x q"
  by (auto simp: valid_filters_def invalid_date_range_def if_truthy_def date_gt_def
      split: option.splits if_splits)

lemma build_query_fields:
  "or_regex (build_query x q) = if_truthy (map_option (\<lambda>s. escape (trim s)) (q_searchText q))"
  "uploadTime_gte (build_query x q) = map_option (parseDate x) (if_truthy (q_startDate q))"
  "uploadTime_lte (build_query x q) = map_option (parseDate x) (if_truthy (q_endDate q))"
  "tags_in (build_query x q) =
     map_option (\<lambda>t. map trim (split CHR '','' t)) (if_truthy (map_option trim (q_tags q)))"
  by (simp_all add: build_query_def Let_def)

lemma valid_filters_compile:
  assumes "valid_filters x q"
  shows "\<exists>matching. compile_query x (build_query x q) = Inr matching \<and>
           (\<forall>p. matching p = matches_filters x q p)"
proof -
  have start: "case q_startDate q of None \<Rightarrow> True | Some s \<Rightarrow> s = [] \<or> parseDate x s \<noteq> None"
    and finish: "case q_endDate q of None \<Rightarrow> True | Some s \<Rightarrow> s = [] \<or> parseDate x s \<noteq> None"
    and pattern: "case q_searchText q of None \<Rightarrow> True
       | Some s \<Rightarrow> escape (trim s) = [] \<or>
           (case regex x (escape (trim s)) of Inl err \<Rightarrow> False | Inr matches \<Rightarrow> True)"
    using assms by (simp_all add: valid_filters_def split: option.splits)
  define gte where "gte = (case q_startDate q of None \<Rightarrow> None
                             | Some s \<Rightarrow> if s = [] then None else parseDate x s)"
  define lte where "lte = (case q_endDate q of None \<Rightarrow> None
                             | Some s \<Rightarrow> if s = [] then None else parseDate x s)"
  define matches where "matches = (case q_searchText q of None \<Rightarrow> (\<lambda>s. True)
       | Some s \<Rightarrow> if escape (trim s) = [] then (\<lambda>s. True)
                  else (case regex x (escape (trim s)) of Inl err \<Rightarrow> (\<lambda>s. True) | Inr m \<Rightarrow> m))"
  have gte: "cast_date x (uploadTime_gte (build_query x q)) = Inr gte"
    using start
    by (cases "q_startDate q")
       (auto simp: gte_def build_query_fields cast_date_def if_truthy_def split: option.splits)
  have lte: "cast_date x (uploadTime_lte (build_query x q)) = Inr lte"
    using finish
    by (cases "q_endDate q")
       (auto simp: lte_def build_query_fields cast_date_def if_truthy_def split: option.splits)
  have matches:
    "(case or_regex (build_query x q) of None \<Rightarrow> Inr (\<lambda>s. True) | Some pattern \<Rightarrow> regex x pattern) =
       Inr matches"
    using pattern
    by (cases "q_searchText q")
       (auto simp: matches_def build_query_fields if_truthy_def split: sum.splits)
  have gte_p: "(case gte of None \<Rightarrow> True | Some t \<Rightarrow> t \<le> post_uploadTime p) =
       (case q_startDate q of None \<Rightarrow> True
        | Some s \<Rightarrow> s = [] \<or>
            (case parseDate x s of None \<Rightarrow> False | Some t \<Rightarrow> t \<le> post_uploadTime p))" for p
    using start by (cases "q_startDate q") (auto simp: gte_def split: option.splits)
  have lte_p: "(case lte of None \<Rightarrow> True | Some t \<Rightarrow> post_uploadTime p \<le> t) =
       (case q_endDate q of None \<Rightarrow> True
        | Some s \<Rightarrow> s = [] \<or>
            (case parseDate x s of None \<Rightarrow> False | Some t \<Rightarrow> post_uploadTime p \<le> t))" for p
    using finish by (cases "q_endDate q") (auto simp: lte_def split: option.splits)
  have matches_p: "(matches (post_postName p) \<or> matches (post_description p)) =
       (case q_searchText q of None \<Rightarrow> True
        | Some s \<Rightarrow> escape (trim s) = [] \<or>
            (case regex x (escape (trim s)) of Inl err \<Rightarrow> False
             | Inr m \<Rightarrow> m (post_postName p) \<or> m (post_description p)))" for p
    using pattern by (cases "q_searchText q") (auto simp: matches_def split: sum.splits)
  have tags: "(case tags_in (build_query x q) of None \<Rightarrow> True
                | Some ts \<Rightarrow> \<exists>t \<in> set (post_tags p). t \<in> set ts) =
       (case q_tags q of None \<Rightarrow> True
        | Some s \<Rightarrow> trim s = [] \<or>
            (\<exists>t \<in> set (post_tags p). t \<in> set (map trim (split CHR '','' (trim s)))))" for p
    by (cases "q_tags q") (simp_all add: build_query_fields if_truthy_def)
  show ?thesis
    by (simp add: compile_query_def matches_filters_def gte lte matches gte_p lte_p matches_p tags)
qed


lemma skip_exact:
  assumes "1 \<le> p" "1 \<le> l" "p * l \<le> 2 ^ 53"
  shows "js_mul x (js_sub x (Num (of_int p)) (Num 1)) (Num (of_int l)) =
           Num (of_int ((p - 1) * l))"
proof -
  have "(p - 1) * l \<le> p * l"
    using assms by (simp add: mult_right_mono)
  moreover have "0 \<le> (p - 1) * l"
    using assms by simp
  ultimately have b: "\<bar>(p - 1) * l\<bar> \<le> 2 ^ 53"
    using assms(3) by linarith
  have "p - 1 \<le> (p - 1) * l"
    using assms by (simp add: mult_le_cancel_left1)
  then have a: "\<bar>p - 1\<bar> \<le> 2 ^ 53"
    using b assms(1) by linarith
  have "js_sub x (Num (of_int p)) (Num 1) = Num (of_int (p - 1))"
    using js_number_int [OF a, of x] by simp
  then show ?thesis
    using js_number_int [OF b, of x] by simp
qed

lemma window_counts:
  assumes "0 \<le> k" "k \<le> 2 ^ 53" "1 \<le> l" "l \<le> 2 ^ 53"
  shows "window x (Num (of_int k)) (Num (of_int l)) = Inr (nat k, Some (nat l))"
proof -
  have "real_of_int k \<le> 2 ^ 53" "real_of_int l \<le> 2 ^ 53"
    using assms(2,4) by (metis of_int_le_iff of_int_numeral of_int_power)+
  then show ?thesis
    using assms(1,3) by (simp add: window_def)
qed

text \<open>
  Rounding does not move a quotient of integers across an integer, as long as
  the dividend has at most 53 bits.
\<close>

lemma pages_exact:
  assumes fl: "binary64 (round64 x)"
    and n: "n < 2 ^ 53"
    and l: "1 \<le> l" "l \<le> 100"
  shows "js_ceil (js_div x (js_number x (real n)) (Num (of_int l))) =
           Num (of_int \<lceil>real n / real_of_int l\<rceil>)"
proof -
  let ?r = "real n / real_of_int l"
  have nn: "js_number x (real n) = Num (real n)"
    using js_number_int [of "int n" x] n by simp
  have lpos: "0 < real_of_int l"
    using l by simp
  have dv: "js_div x (js_number x (real n)) (Num (of_int l)) = js_number x ?r"
    using lpos by (simp add: nn)
  show ?thesis
  proof (cases "?r \<in> \<int> \<and> \<bar>?r\<bar> \<le> 2 ^ 53")
    case True
    then obtain k :: int where k: "?r = of_int k"
      by (auto elim: Ints_cases)
    then have "js_ceil (js_number x ?r) = Num (of_int \<lceil>?r\<rceil>)"
      using True by (simp add: js_number_def)
    then show ?thesis
      by (simp only: dv)
  next
    case False
    have rle: "?r \<le> real n"
    proof -
      have "1 * real n \<le> real_of_int l * real n"
        using l by (intro mult_right_mono) simp_all
      then show ?thesis
        using lpos by (simp add: field_simps)
    qed
    have nr: "real n < 2 ^ 53"
      using n by (metis of_nat_less_iff of_nat_numeral of_nat_power)
    have "0 \<le> ?r"
      using lpos by simp
    then have "\<bar>?r\<bar> = ?r"
      by (rule abs_of_nonneg)
    moreover have "?r \<le> 2 ^ 53"
      using rle nr by linarith
    ultimately have "\<bar>?r\<bar> \<le> 2 ^ 53"
      by (simp only:)
    then have notint: "?r \<notin> \<int>"
      using False by blast
    define N where "N = int n div l"
    define m where "m = int n mod l"
    have nm: "int n = l * N + m"
      by (simp add: N_def m_def)
    have m0: "m \<noteq> 0"
    proof
      assume "m = 0"
      then have "real n = real_of_int l * real_of_int N"
        using nm by (metis add.right_neutral of_int_mult of_int_of_nat_eq)
      then have "?r = of_int N"
        using lpos by simp
      then show False using notint by simp
    qed
    have "0 \<le> m" "m < l"
      using l by (simp_all add: m_def)
    then have mb: "1 \<le> m" "m \<le> l - 1"
      using m0 by linarith+
    have r: "?r = of_int N + of_int m / of_int l"
    proof -
      have "real n = real_of_int l * real_of_int N + real_of_int m"
        using nm by (metis of_int_add of_int_mult of_int_of_nat_eq)
      then show ?thesis using lpos by (simp add: field_simps)
    qed
    have rpos: "1 / 2 ^ 1022 \<le> ?r"
    proof -
      have "1 \<le> real n"
        using notint by (cases n) auto
      then have "1 / 100 \<le> ?r"
        using l lpos by (simp add: field_simps)
      moreover have "(1::real) / 2 ^ 1022 \<le> 1 / 100"
        by simp
      ultimately show ?thesis by linarith
    qed
    have rlt: "?r < 2 ^ 1023"
    proof -
      have "(2::real) ^ 53 \<le> 2 ^ 1023"
        by (rule power_increasing) simp_all
      then show ?thesis using rle nr by linarith
    qed
    obtain d where d: "round64 x ?r = Num d" "\<bar>d - ?r\<bar> * 2 ^ 53 \<le> ?r"
      using fl rpos rlt unfolding binary64_def by blast
    have err: "\<bar>d - ?r\<bar> < 1 / of_int l"
    proof -
      have "?r < 2 ^ 53 / of_int l"
        using nr lpos by (simp add: divide_strict_right_mono)
      then have "\<bar>d - ?r\<bar> * 2 ^ 53 < 2 ^ 53 / of_int l"
        using d(2) by linarith
      then show ?thesis
        by (simp add: field_simps)
    qed
    have low: "1 / real_of_int l \<le> real_of_int m / real_of_int l"
      using mb(1) lpos by (intro divide_right_mono) simp_all
    have high: "real_of_int m / real_of_int l + 1 / real_of_int l \<le> 1"
    proof -
      have "real_of_int m + 1 \<le> real_of_int l"
        using mb(2) by linarith
      then have "(real_of_int m + 1) / real_of_int l \<le> 1"
        using lpos by simp
      then show ?thesis
        by (simp only: add_divide_distrib)
    qed
    have epos: "0 < 1 / real_of_int l"
      using lpos by simp
    have lo: "of_int N < d"
      using r low err by linarith
    have hi: "d \<le> of_int N + 1"
      using r high err by linarith
    have cd: "\<lceil>d\<rceil> = N + 1"
      using lo hi by (simp add: ceiling_unique)
    have cr: "\<lceil>?r\<rceil> = N + 1"
    proof -
      have "of_int N < ?r"
        using r low epos by linarith
      moreover have "?r \<le> of_int N + 1"
        using r high epos by linarith
      ultimately show ?thesis by (simp add: ceiling_unique)
    qed
    have "js_number x ?r = Num d"
      unfolding js_number_def using False d(1) by (simp only: if_False)
    then have "js_div x (js_number x (real n)) (Num (of_int l)) = Num d"
      by (simp only: dv)
    then show ?thesis
      using cd cr by simp
  qed
qed

lemma sort_posts_newest_first: "newest_first (sort_posts (''uploadTime'', - 1) ps)"
  using sorted_sort_key [of "\<lambda>p. - 1 * post_uploadTime p" ps]
  by (simp add: sort_posts_def newest_first_def sorted_map)


lemma sort_posts_stable:
  "filter (\<lambda>p. post_uploadTime p = t) (sort_posts (''uploadTime'', - 1) ps) =
     filter (\<lambda>p. post_uploadTime p = t) ps"
  using sort_key_stable [of "\<lambda>p. - 1 * post_uploadTime p" "- t" ps]
  by (simp add: sort_posts_def)

lemma valid_filters_find:
  assumes "valid_filters x q"
    and "0 \<le> k" "k \<le> 2 ^ 53" "1 \<le> l" "l \<le> 2 ^ 53"
  shows "find_posts x posts (build_query x q) (Num (of_int k)) (Num (of_int l)) key =
           Inr (take (nat l) (drop (nat k) (sort_posts key (filter (matches_filters x q) posts))))"
    and "countDocuments x posts (build_query x q) = Inr (length (filter (matches_filters x q) posts))"
proof -
  obtain matching where m: "compile_query x (build_query x q) = Inr matching"
    "\<forall>p. matching p = matches_filters x q p"
    using valid_filters_compile [OF assms(1)] by blast
  have eq: "matching = matches_filters x q"
    using m(2) by (intro ext) simp
  show "find_posts x posts (build_query x q) (Num (of_int k)) (Num (of_int l)) key =
           Inr (take (nat l) (drop (nat k) (sort_posts key (filter (matches_filters x q) posts))))"
    by (simp add: find_posts_def m(1) eq window_counts [OF assms(2-5)])
  show "countDocuments x posts (build_query x q) =
           Inr (length (filter (matches_filters x q) posts))"
    by (simp add: countDocuments_def m(1) eq)
qed

lemma js_number_length: "n < 2 ^ 53 \<Longrightarrow> js_number x (real n) = Num (real n)"
  using js_number_int [of "int n" x] by simp

lemma list_posts_valid:
  assumes v: "valid_filters x q"
    and p: "asks_for (q_page q) 1 p" "1 \<le> p"
    and l: "asks_for (q_limit q) 10 l" "1 \<le> l" "l \<le> 100"
    and pl: "p * l \<le> 2 ^ 53"
    and n: "length posts < 2 ^ 53"
    and fl: "binary64 (round64 x)"
  shows "list_posts x e posts q =
     \<lparr>status = 200,
      body = JObj [(''success'', JBool True),
                   (''message'', JStr ''Posts retrieved successfully''),
                   (''data'',
                    JObj [(''posts'',
                           JArr (map (post_json x)
                             (take (nat l) (drop (nat ((p - 1) * l))
                                (sort_posts (''uploadTime'', - 1)
                                   (filter (matches_filters x q) posts)))))),
                          (''total'', JNum (real (length (filter (matches_filters x q) posts)))),
                          (''page'', JNum (of_int p)),
                          (''pages'',
                           JNum (of_int \<lceil>real (length (filter (matches_filters x q) posts)) /
                                         real_of_int l\<rceil>)),
                          (''limit'', JNum (of_int l))])]\<rparr>"
proof -
  let ?n = "length (filter (matches_filters x q) posts)"
  have pb: "p \<le> 2 ^ 53"
  proof -
    have "p * 1 \<le> p * l"
      using p(2) l(2) by (intro mult_left_mono) simp_all
    then show ?thesis using pl by simp
  qed
  have lb: "l \<le> 2 ^ 53"
    using l(3) by simp
  have sv: "searchValidation x q = []"
    using searchValidation_valid [OF v p pb l] .
  have rg: "\<not> invalid_date_range x q"
    using valid_filters_range [OF v] .
  have pn: "to_number x (q_page q) 1 = Num (of_int p)" "parse_int x (q_page q) 1 = Num (of_int p)"
    using asks_for_number [OF p(1), of x] p(2) pb by simp_all
  have ln: "to_number x (q_limit q) 10 = Num (of_int l)"
    "parse_int x (q_limit q) 10 = Num (of_int l)"
    using asks_for_number [OF l(1), of x] l(2) lb by simp_all
  have sk: "js_mul x (js_sub x (Num (of_int p)) (Num 1)) (Num (of_int l)) =
              Num (of_int ((p - 1) * l))"
    using skip_exact [OF p(2) l(2) pl] .
  have k0: "0 \<le> (p - 1) * l"
    using p(2) l(2) by simp
  have k1: "(p - 1) * l \<le> 2 ^ 53"
  proof -
    have "(p - 1) * l \<le> p * l"
      using l(2) by (intro mult_right_mono) simp_all
    then show ?thesis using pl by simp
  qed
  note fc = valid_filters_find [OF v k0 k1 l(2) lb, of posts]
  have nb: "?n < 2 ^ 53"
    using n length_filter_le [of "matches_filters x q" posts] by linarith
  have tn: "js_number x (real ?n) = Num (real ?n)"
    using js_number_length [OF nb] .
  have pg: "js_ceil (js_div x (Num (real ?n)) (Num (of_int l))) =
              Num (of_int \<lceil>real ?n / real_of_int l\<rceil>)"
    using pages_exact [OF fl nb l(2,3)] by (simp only: tn)
  show ?thesis
    unfolding list_posts_def Let_def
    by (simp only: sv rg pn ln sk fc tn pg simp_thms if_False if_True sum.case) simp
qed




subsection \<open>The order of a listing\<close>

lemma newest_first_slice: "newest_first ps \<Longrightarrow> newest_first (take m (drop k ps))"
  by (simp add: newest_first_def sorted_wrt_take sorted_wrt_drop)

lemma ties_slice:
  assumes "ties_in_insertion_order posts ps"
  shows "ties_in_insertion_order posts (take m (drop k ps))"
  unfolding ties_in_insertion_order_def
proof
  fix t
  assume "t \<in> set (map post_uploadTime (take m (drop k ps)))"
  then have "t \<in> set (map post_uploadTime ps)"
    by (auto dest!: in_set_takeD in_set_dropD)
  then have a: "subseq (filter (\<lambda>p. post_uploadTime p = t) ps) posts"
    using assms unfolding ties_in_insertion_order_def by blast
  have "subseq (take m (drop k ps)) ps"
    by (meson sublist_drop sublist_take sublist_imp_subseq subseq_order.order_trans)
  then have "subseq (filter (\<lambda>p. post_uploadTime p = t) (take m (drop k ps)))
               (filter (\<lambda>p. post_uploadTime p = t) ps)"
    by (rule subseq_filter)
  then show "subseq (filter (\<lambda>p. post_uploadTime p = t) (take m (drop k ps))) posts"
    using a by (rule subseq_order.order_trans)
qed

lemma sort_posts_ties: "ties_in_insertion_order posts (sort_posts (''uploadTime'', - 1) (filter P posts))"
  by (simp add: ties_in_insertion_order_def sort_posts_stable)

lemma same_filters_query:
  assumes "same_filters q q'"
  shows "build_query x q' = build_query x q" "build_query_draft x q' = build_query_draft x q"
  using assms by (simp_all add: same_filters_def build_query_def build_query_draft_def)

lemma find_posts_slice:
  assumes "find_posts x posts query skip limit key = Inr found"
  shows "\<exists>matching k m. compile_query x query = Inr matching \<and>
           found = take m (drop k (sort_posts key (filter matching posts)))"
proof -
  obtain matching where c: "compile_query x query = Inr matching"
    using assms by (cases "compile_query x query") (simp_all add: find_posts_def)
  obtain k n where w: "window x skip limit = Inr (k, n)"
    using assms c by (cases "window x skip limit") (auto simp: find_posts_def)
  let ?rest = "drop k (sort_posts key (filter matching posts))"
  have f: "found = (case n of None \<Rightarrow> ?rest | Some m \<Rightarrow> take m ?rest)"
    using assms c w by (simp add: find_posts_def Let_def)
  show ?thesis
  proof (cases n)
    case None
    then have "found = take (length ?rest) ?rest"
      using f by simp
    then show ?thesis using c by blast
  next
    case (Some m)
    then have "found = take m ?rest"
      using f by simp
    then show ?thesis using c by blast
  qed
qed

lemma router_error_handler_not_200: "status (router_error_handler e err) \<noteq> 200"
  by (cases err) (simp_all add: router_error_handler_def)

lemma list_posts_200:
  assumes "status (list_posts x e posts q) = 200"
  shows "\<exists>found skip limit.
           find_posts x posts (build_query x q) skip limit (''uploadTime'', - 1) = Inr found \<and>
           data_get ''posts'' (list_posts x e posts q) = Some (JArr (map (post_json x) found))"
  using assms
  by (auto simp: list_posts_def Let_def data_get_def router_error_handler_not_200
      split: if_splits sum.splits)

lemma list_posts_draft_200:
  assumes "status (list_posts_draft x posts q) = 200"
  shows "\<exists>found skip limit.
           find_posts x posts (build_query_draft x q) skip limit (''uploadTime'', - 1) = Inr found \<and>
           js_get ''posts'' (body (list_posts_draft x posts q)) =
             Some (JArr (map (post_json x) found))"
  using assms
  by (auto simp: list_posts_draft_def Let_def errorHandler_def split: if_splits sum.splits)

subsection \<open>The instance\<close>

lemma js_int_examples:
  "js_int ''1'' = Some 1" "js_int ''2'' = Some 2" "js_int ''10'' = Some 10"
  by (simp_all add: js_int_def digits_value_def is_digit_def)

lemma demo_binary64: "binary64 (round64 demo_ext)"
  by (auto simp: binary64_def demo_ext_simps intro: order_trans [rotated])

lemma demo_query_filters:
  "valid_filters demo_ext (demo_query\<lparr>q_page := pg, q_limit := lm\<rparr>)"
  "plain_filters (demo_query\<lparr>q_page := pg, q_limit := lm\<rparr>)"
  "matches_filters demo_ext (demo_query\<lparr>q_page := pg, q_limit := lm\<rparr>) = (\<lambda>p. True)"
  "same_filters demo_query (demo_query\<lparr>q_page := pg, q_limit := lm\<rparr>)"
  by (simp_all add: valid_filters_def plain_filters_def matches_filters_def same_filters_def
      demo_query_def fun_eq_iff)

lemma demo_ties_length: "length demo_ties = 3"
  by (simp add: demo_ties_def)

lemma demo_ties_sorted:
  "sort_posts (''uploadTime'', - 1) demo_ties =
     [demo_post ''c'' 7, demo_post ''a'' 5, demo_post ''b'' 5]"
  by (simp add: sort_posts_def demo_ties_def demo_post_def)

lemma find_posts_ordered:
  "\<exists>ordered. newest_first ordered \<and> ties_in_insertion_order posts ordered \<and>
     (\<forall>skip limit found.
        find_posts x posts query skip limit (''uploadTime'', - 1) = Inr found \<longrightarrow>
        (\<exists>k m. found = take m (drop k ordered)))"
proof (cases "compile_query x query")
  case (Inl err)
  have "newest_first []" "ties_in_insertion_order posts []"
    by (simp_all add: newest_first_def ties_in_insertion_order_def)
  moreover have "find_posts x posts query skip limit (''uploadTime'', - 1) \<noteq> Inr found"
    for skip limit found
    using Inl by (simp add: find_posts_def)
  ultimately show ?thesis by blast
next
  case (Inr matching)
  let ?ordered = "sort_posts (''uploadTime'', - 1) (filter matching posts)"
  have "\<exists>k m. found = take m (drop k ?ordered)"
    if "find_posts x posts query skip limit (''uploadTime'', - 1) = Inr found"
    for skip limit found
    using find_posts_slice [OF that] Inr by auto
  then show ?thesis
    using sort_posts_newest_first [of "filter matching posts"] sort_posts_ties [of posts matching]
    by blast
qed




subsection \<open>A start date after the end date\<close>

text \<open>
  The later version of the route answers 400, without data, when \<open>Date\<close> reads
  both dates and the start is after the end.
\<close>

lemma list_posts_inverted_dates:
  assumes "q_startDate q = Some s" "q_endDate q = Some t" "s \<noteq> []" "t \<noteq> []"
    and "parseDate x s = Some a" "parseDate x t = Some b" "b < a"
  shows "status (list_posts x e posts q) = 400 \<and>
         js_get ''data'' (body (list_posts x e posts q)) = None \<and>
         js_get ''message'' (body (list_posts x e posts q)) =
           Some (JStr (if searchValidation x q = [] then ''Invalid date range''
                       else ''Invalid query parameters''))"
proof -
  have "invalid_date_range x q"
    using assms by (simp add: invalid_date_range_def if_truthy_def date_gt_def)
  then show ?thesis
    by (simp add: list_posts_def Let_def)
qed

text \<open>
  It validates the dates with \<open>isISO8601\<close> and reads them with \<open>Date\<close>: a start
  date that passes validation and that \<open>Date\<close> does not read is after no date,
  the query is refused by the store, and the answer is 500.
\<close>

lemma list_posts_unreadable_start:
  assumes "searchValidation x q = []"
    and "q_startDate q = Some s" "s \<noteq> []" "parseDate x s = None"
    and "castError x ''uploadTime'' = Error m"
  shows "status (list_posts x e posts q) = 500"
proof -
  have r: "\<not> invalid_date_range x q"
    using assms(2-4)
    by (simp add: invalid_date_range_def if_truthy_def date_gt_def split: option.splits)
  have "uploadTime_gte (build_query x q) = Some None"
    using assms(2-4) by (simp add: build_query_fields if_truthy_def)
  then have c: "compile_query x (build_query x q) = Inl (Error m)"
    using assms(5) by (simp add: compile_query_def cast_date_def)
  show ?thesis
    by (simp add: list_posts_def Let_def assms(1) r find_posts_def c router_error_handler_def)
qed

lemma inverted_dates_draft_query:
  assumes "q_startDate q = Some s" "q_endDate q = Some t" "s \<noteq> []" "t \<noteq> []"
    and "parseDate x s = Some a" "parseDate x t = Some b" "b < a"
    and "\<forall>pattern. q_searchText q = Some pattern \<and> pattern \<noteq> [] \<longrightarrow>
           (\<exists>matches. regex x pattern = Inr matches)"
  shows "\<exists>matching. compile_query x (build_query_draft x q) = Inr matching \<and>
           filter matching posts = []"
proof -
  have g: "uploadTime_gte (build_query_draft x q) = Some (Some a)"
    "uploadTime_lte (build_query_draft x q) = Some (Some b)"
    using assms(1-6) by (simp_all add: build_query_draft_def if_truthy_def)
  have "\<exists>matches. (case or_regex (build_query_draft x q) of
                      None \<Rightarrow> Inr (\<lambda>s. True)
                    | Some pattern \<Rightarrow> regex x pattern) = Inr matches"
  proof (cases "if_truthy (q_searchText q)")
    case None
    then show ?thesis by (simp add: build_query_draft_def)
  next
    case (Some pattern)
    then have "q_searchText q = Some pattern \<and> pattern \<noteq> []"
      by (auto simp: if_truthy_def split: option.splits if_splits)
    then obtain matches where "regex x pattern = Inr matches"
      using assms(8) by blast
    then show ?thesis using Some by (simp add: build_query_draft_def)
  qed
  then obtain matches where
    m: "(case or_regex (build_query_draft x q) of
           None \<Rightarrow> Inr (\<lambda>s. True)
         | Some pattern \<Rightarrow> regex x pattern) = Inr matches"
    by blast
  have "compile_query x (build_query_draft x q) =
          Inr (\<lambda>p. (matches (post_postName p) \<or> matches (post_description p)) \<and>
                    a \<le> post_uploadTime p \<and> post_uploadTime p \<le> b \<and>
                    (case tags_in (build_query_draft x q) of
                       None \<Rightarrow> True
                     | Some ts \<Rightarrow> \<exists>t \<in> set (post_tags p). t \<in> set ts))"
    by (simp add: compile_query_def cast_date_def g m)
  moreover have "filter (\<lambda>p. (matches (post_postName p) \<or> matches (post_description p)) \<and>
                    a \<le> post_uploadTime p \<and> post_uploadTime p \<le> b \<and>
                    (case tags_in (build_query_draft x q) of
                       None \<Rightarrow> True
                     | Some ts \<Rightarrow> \<exists>t \<in> set (post_tags p). t \<in> set ts)) posts = []"
    using assms(7) by (auto simp: filter_empty_conv)
  ultimately show ?thesis by blast
qed

lemma list_posts_week_date:
  "isISO8601 demo_ext ''2024-W10'' \<and> parseDate demo_ext ''2024-W10'' = None \<and>
   status (list_posts demo_ext demo_env []
             (demo_query\<lparr>q_startDate := Some ''2024-W10'', q_endDate := Some ''2024-03-01''\<rparr>)) = 500"
proof -
  let ?q = "demo_query\<lparr>q_startDate := Some ''2024-W10'', q_endDate := Some ''2024-03-01''\<rparr>"
  have v: "searchValidation demo_ext ?q = []"
    by (simp add: searchValidation_def optional_def check_def demo_query_def demo_ext_simps)
  have "status (list_posts demo_ext demo_env [] ?q) = 500"
    using list_posts_unreadable_start [OF v, of "''2024-W10''" "''Cast to date failed''" demo_env "[]"]
    by (simp add: demo_ext_simps)
  then show ?thesis by (simp add: demo_ext_simps)
qed

subsection \<open>Creating a post\<close>

lemma trim_Nil: "trim [] = []"
  by (simp add: trim_def)

lemma postValidation_fields:
  "postValidation req = [] \<longleftrightarrow> fields_given req"
  "postValidation_draft req = [] \<longleftrightarrow> fields_given_draft req"
  by (auto simp: postValidation_def postValidation_draft_def fields_given_def
      fields_given_draft_def check_def toString_def trim_Nil
      split: option.splits tags_field.splits)

lemma upload_accepts:
  "upload x e None = Inr None"
  "fileFilter x f \<Longrightarrow> file_size f < 5 * 1024 * 1024 \<Longrightarrow>
     \<exists>name. upload x e (Some f) = Inr (Some name)"
  "fileFilter x f \<Longrightarrow> 5 * 1024 * 1024 \<le> file_size f \<Longrightarrow>
     upload x e (Some f) = Inl (MulterError ''File too large'')"
  by (simp_all add: upload_def fileSize_limit_def)

lemma create_post_checks:
  assumes "auth x request = Inr req"
    and "upload x e (req_file request) = Inr filename"
    and "req_user req = Some caller"
    and "js_get ''id'' caller \<noteq> Some (JStr (toString (userId request)))"
  shows "fst (create_post x e posts request) = posts"
    and "status (snd (create_post x e posts request)) =
           (if \<not> fields_given request then 400
            else if \<not> truthy (js_get ''id'' caller) then 401 else 403)"
    and "fst (create_post_draft x e posts request) = posts"
    and "status (snd (create_post_draft x e posts request)) =
           (if \<not> fields_given_draft request then 400 else 403)"
proof -
  note k = auth_keeps_body [OF assms(1)]
  have f: "fields_given req = fields_given request"
    "fields_given_draft req = fields_given_draft request"
    using k by (simp_all add: fields_given_def fields_given_draft_def)
  have u: "upload x e (req_file req) = Inr filename"
    using assms(2) k by simp
  have i: "user_id_of req = js_get ''id'' caller"
    using assms(3) by (simp add: user_id_of_def)
  have d: "user_id_of req \<noteq> Some (JStr (toString (userId req)))"
    using assms(4) k by (simp add: i)
  have t: "truthy (req_user req)" if "truthy (js_get ''id'' caller)"
    using that assms(3) by (cases caller) simp_all
  show "fst (create_post x e posts request) = posts"
    using d by (simp add: create_post_def assms(1) u Let_def)
  show "status (snd (create_post x e posts request)) =
           (if \<not> fields_given request then 400
            else if \<not> truthy (js_get ''id'' caller) then 401 else 403)"
    using d t
    by (auto simp: create_post_def assms(1) u Let_def postValidation_fields f i
        validation_failed_def)
  show "fst (create_post_draft x e posts request) = posts"
    using d by (simp add: create_post_draft_def assms(1) u Let_def)
  show "status (snd (create_post_draft x e posts request)) =
           (if \<not> fields_given_draft request then 400 else 403)"
    using d
    by (simp add: create_post_draft_def assms(1) u Let_def postValidation_fields f)
qed


lemma create_post_store:
  assumes "auth x request = Inr req"
    and "req_user req = Some caller"
    and "js_get ''id'' caller \<noteq> Some (JStr (toString (userId request)))"
  shows "fst (create_post x e posts request) = posts"
    and "fst (create_post_draft x e posts request) = posts"
proof -
  show "fst (create_post x e posts request) = posts"
  proof (cases "upload x e (req_file request)")
    case (Inl err)
    then show ?thesis
      using auth_keeps_body(5) [OF assms(1)] by (simp add: create_post_def assms(1))
  next
    case (Inr filename)
    then show ?thesis
      using create_post_checks(1) [OF assms(1) _ assms(2,3)] by simp
  qed
  show "fst (create_post_draft x e posts request) = posts"
  proof (cases "upload x e (req_file request)")
    case (Inl err)
    then show ?thesis
      using auth_keeps_body(5) [OF assms(1)] by (simp add: create_post_draft_def assms(1))
  next
    case (Inr filename)
    then show ?thesis
      using create_post_checks(3) [OF assms(1) _ assms(2,3)] by simp
  qed
qed

section \<open>The token verifier\<close>

text \<open>
  C8: the token verifier answers, and then with status 401, if and only if the
  \<open>Authorization\<close> header yields no token (it is absent, or nothing is left of
  it) or the token fails verification; when it passes the request on, the
  decoded payload of the token is \<open>req.user\<close> and nothing else of the request
  has changed. The verifier is a function of the request and of
  \<open>jwt.verify\<close> alone: no collection of the database is among its arguments.
\<close>

theorem auth_fails_iff_no_valid_token:
  "((\<exists>res. auth x req = Inl res) \<longleftrightarrow>
      (header_token req = None \<or> header_token req = Some [] \<or>
       (\<exists>token. header_token req = Some token \<and> jwt_verify x token = None))) \<and>
   (\<forall>res. auth x req = Inl res \<longrightarrow> status res = 401) \<and>
   (\<forall>req'. auth x req = Inr req' \<longrightarrow>
      (\<exists>token decoded. header_token req = Some token \<and> token \<noteq> [] \<and>
         jwt_verify x token = Some decoded \<and> req' = req\<lparr>req_user := Some decoded\<rparr>))"
  by (auto simp: auth_def split: option.splits if_splits)

theorem auth_fails_iff_no_valid_token_witness:
  "auth demo_ext demo_request =
     Inr (demo_request\<lparr>req_user := Some (JObj [(''id'', JStr ''u1'')])\<rparr>) \<and>
   (\<exists>res. auth demo_ext (demo_request\<lparr>authorization := Some ''Bearer forged''\<rparr>) = Inl res \<and>
      status res = 401) \<and>
   (\<exists>res. auth demo_ext (demo_request\<lparr>authorization := None\<rparr>) = Inl res \<and> status res = 401)"
proof -
  have t1: "header_token demo_request = Some ''token-u1''"
    by (simp add: header_token_def demo_request_def)
  have v1: "jwt_verify demo_ext ''token-u1'' = Some (JObj [(''id'', JStr ''u1'')])"
    by (simp add: demo_ext_simps)
  have t2: "header_token (demo_request\<lparr>authorization := Some ''Bearer forged''\<rparr>) = Some ''forged''"
    by (simp add: header_token_def)
  have v2: "jwt_verify demo_ext ''forged'' = None"
    by (simp add: demo_ext_simps)
  have t3: "header_token (demo_request\<lparr>authorization := None\<rparr>) = None"
    by (simp add: header_token_def)
  have "\<exists>req'. auth demo_ext demo_request = Inr req'"
    using auth_fails_iff_no_valid_token [of demo_ext demo_request] t1 v1
    by (cases "auth demo_ext demo_request") auto
  then have a: "auth demo_ext demo_request =
      Inr (demo_request\<lparr>req_user := Some (JObj [(''id'', JStr ''u1'')])\<rparr>)"
    using auth_fails_iff_no_valid_token [of demo_ext demo_request] t1 v1 by auto
  have b: "\<exists>res. auth demo_ext (demo_request\<lparr>authorization := Some ''Bearer forged''\<rparr>) = Inl res \<and>
      status res = 401"
    using auth_fails_iff_no_valid_token
      [of demo_ext "demo_request\<lparr>authorization := Some ''Bearer forged''\<rparr>"] t2 v2
    by auto
  have c: "\<exists>res. auth demo_ext (demo_request\<lparr>authorization := None\<rparr>) = Inl res \<and> status res = 401"
    using auth_fails_iff_no_valid_token [of demo_ext "demo_request\<lparr>authorization := None\<rparr>"] t3
    by auto
  show ?thesis using a b c by blast
qed

text \<open>
  C10: the verifier does not require the scheme prefix. Of any header value it
  removes the leftmost occurrence of \<open>Bearer \<close> and nothing else: a value
  without the word is the token as it is, and of \<open>a @ Bearer  @ b\<close>, with no
  earlier occurrence, \<open>a @ b\<close> is left. So a header that is a bare token is
  treated as the same token behind the prefix is: the same answer, or the same
  identity attached; a bare token that verifies is accepted.
\<close>

theorem auth_accepts_bare_token:
  "(\<not> sublist ''Bearer '' h \<longrightarrow> header_token (req\<lparr>authorization := Some h\<rparr>) = Some h) \<and>
   (\<forall>a b. h = a @ ''Bearer '' @ b \<and> \<not> sublist ''Bearer '' (a @ ''Bearer'') \<longrightarrow>
      header_token (req\<lparr>authorization := Some h\<rparr>) = Some (a @ b)) \<and>
   (\<not> sublist ''Bearer '' h \<longrightarrow>
      auth x (req\<lparr>authorization := Some h\<rparr>) =
      map_sum id (\<lambda>r. r\<lparr>authorization := Some h\<rparr>)
        (auth x (req\<lparr>authorization := Some (''Bearer '' @ h)\<rparr>))) \<and>
   (\<not> sublist ''Bearer '' h \<and> h \<noteq> [] \<and> jwt_verify x h = Some decoded \<longrightarrow>
      auth x (req\<lparr>authorization := Some h\<rparr>) =
      Inr (req\<lparr>authorization := Some h, req_user := Some decoded\<rparr>))"
proof -
  have bare: "replace ''Bearer '' '''' h = h" if "\<not> sublist ''Bearer '' h"
    using that by (rule replace_no_occurrence)
  have first: "replace ''Bearer '' '''' (a @ ''Bearer '' @ b) = a @ b"
    if "\<not> sublist ''Bearer '' (a @ ''Bearer'')" for a b
    using replace_first_occurrence [of "''Bearer ''" a "''''" b] that by simp
  have prefixed: "replace ''Bearer '' '''' (''Bearer '' @ h) = h"
    by simp
  show ?thesis
    using bare first prefixed
    by (auto simp: auth_def header_token_def split: option.splits)
qed

theorem auth_accepts_bare_token_witness:
  "\<not> sublist ''Bearer '' ''token-u1'' \<and>
   auth demo_ext (demo_request\<lparr>authorization := Some ''token-u1''\<rparr>) =
     Inr (demo_request\<lparr>authorization := Some ''token-u1'',
                       req_user := Some (JObj [(''id'', JStr ''u1'')])\<rparr>) \<and>
   \<not> sublist ''Bearer '' (''x'' @ ''Bearer'') \<and>
   header_token (demo_request\<lparr>authorization := Some (''x'' @ ''Bearer '' @ ''token-u1Bearer y'')\<rparr>) =
     Some (''x'' @ ''token-u1Bearer y'')"
proof -
  have n1: "\<not> sublist ''Bearer '' ''token-u1''"
    by (simp add: sublist_code)
  have v1: "jwt_verify demo_ext ''token-u1'' = Some (JObj [(''id'', JStr ''u1'')])"
    by (simp add: demo_ext_simps)
  have n2: "\<not> sublist ''Bearer '' (''x'' @ ''Bearer'')"
    by (simp add: sublist_code)
  note bare = auth_accepts_bare_token
    [of "''token-u1''" demo_request demo_ext "JObj [(''id'', JStr ''u1'')]"]
  note first = auth_accepts_bare_token
    [of "''x'' @ ''Bearer '' @ ''token-u1Bearer y''" demo_request demo_ext JNull]
  have a: "auth demo_ext (demo_request\<lparr>authorization := Some ''token-u1''\<rparr>) =
     Inr (demo_request\<lparr>authorization := Some ''token-u1'',
                       req_user := Some (JObj [(''id'', JStr ''u1'')])\<rparr>)"
    using bare n1 v1 by blast
  have b: "header_token
      (demo_request\<lparr>authorization := Some (''x'' @ ''Bearer '' @ ''token-u1Bearer y'')\<rparr>) =
     Some (''x'' @ ''token-u1Bearer y'')"
    using first n2 by blast
  show ?thesis using n1 a n2 b by blast
qed

section \<open>The auth service\<close>

text \<open>
  C2: two login requests that pass validation, one for an email that no user
  has, one with a password that does not match the stored hash, get the same
  response, status and body: 401 with the same message and error in the
  route, 400 with the same error in its earlier draft.
\<close>

theorem login_failures_indistinguishable:
  "(loginValidation x b1 = [] \<and> loginValidation x b2 = [] \<and>
    findOne users1 (normalizeEmail x (trim (toString (body_email b1)))) = None \<and>
    findOne users2 (normalizeEmail x (trim (toString (body_email b2)))) = Some u \<and>
    \<not> bcrypt_compare x (toString (body_password b2)) (user_password u) \<longrightarrow>
      login x e1 users1 b1 = login x e2 users2 b2 \<and> status (login x e1 users1 b1) = 401) \<and>
   (loginValidation_draft x b1 = [] \<and> loginValidation_draft x b2 = [] \<and>
    findOne users1 (toString (body_email b1)) = None \<and>
    findOne users2 (toString (body_email b2)) = Some u \<and>
    \<not> bcrypt_compare x (toString (body_password b2)) (user_password u) \<longrightarrow>
      login_draft x e1 users1 b1 = login_draft x e2 users2 b2 \<and>
      status (login_draft x e1 users1 b1) = 400)"
  by (simp add: login_def authentication_failed_def login_draft_def)

theorem login_failures_indistinguishable_witness:
  "loginValidation demo_ext (demo_credentials\<lparr>body_password := Some ''wrong''\<rparr>) = [] \<and>
   findOne [] ''ann@x.com'' = None \<and>
   findOne [demo_user] ''ann@x.com'' = Some demo_user \<and>
   \<not> bcrypt_compare demo_ext ''wrong'' (user_password demo_user) \<and>
   login demo_ext demo_env [] (demo_credentials\<lparr>body_password := Some ''wrong''\<rparr>) =
     login demo_ext demo_env [demo_user] (demo_credentials\<lparr>body_password := Some ''wrong''\<rparr>) \<and>
   loginValidation_draft demo_ext \<lparr>body_name = None, body_email = Some ''ann@x.com'', body_password = Some ''wrong''\<rparr> = [] \<and>
   login_draft demo_ext demo_env [] \<lparr>body_name = None, body_email = Some ''ann@x.com'', body_password = Some ''wrong''\<rparr> =
     login_draft demo_ext demo_env [demo_user] \<lparr>body_name = None, body_email = Some ''ann@x.com'', body_password = Some ''wrong''\<rparr>"
proof -
  let ?b = "demo_credentials\<lparr>body_password := Some ''wrong''\<rparr>"
  let ?d = "\<lparr>body_name = None, body_email = Some ''ann@x.com'', body_password = Some ''wrong''\<rparr>"
  have n: "normalizeEmail demo_ext (trim (toString (body_email ?b))) = ''ann@x.com''"
    by (simp add: demo_ext_simps demo_credentials_def toString_def demo_strings)
  have v: "loginValidation demo_ext ?b = []"
    by (simp add: loginValidation_def demo_ext_simps demo_credentials_def toString_def demo_strings)
  have f1: "findOne [] ''ann@x.com'' = None"
    by (simp add: findOne_def)
  have f2: "findOne [demo_user] ''ann@x.com'' = Some demo_user"
    by (simp add: findOne_def demo_user_def)
  have c: "\<not> bcrypt_compare demo_ext ''wrong'' (user_password demo_user)"
    by (simp add: demo_ext_simps demo_user_def)
  have vd: "loginValidation_draft demo_ext ?d = []"
    by (simp add: loginValidation_draft_def demo_ext_simps toString_def)
  note inst = login_failures_indistinguishable [of demo_ext ?b ?b "[]" "[demo_user]" demo_user demo_env demo_env]
  note instd = login_failures_indistinguishable [of demo_ext ?d ?d "[]" "[demo_user]" demo_user demo_env demo_env]
  have a: "login demo_ext demo_env [] ?b = login demo_ext demo_env [demo_user] ?b"
    using inst n v f1 f2 c by (simp add: toString_def)
  have b: "login_draft demo_ext demo_env [] ?d = login_draft demo_ext demo_env [demo_user] ?d"
    using instd vd f1 f2 c by (simp add: toString_def)
  show ?thesis using v f1 f2 c a vd b by blast
qed



text \<open>
  C7, as amended: a signup whose email, trimmed and normalized, is the email of
  a registered user fails with status 400 and leaves the users as they are,
  whatever the password; the failure is the conflict (\<open>Email already exists\<close>)
  when the fields pass validation, and the validation failure otherwise.
\<close>

theorem signup_registered_email_fails:
  assumes "u \<in> set users"
    and "user_email u = normalizeEmail x (trim (toString (body_email b)))"
  shows "fst (signup x e users b) = users \<and>
         status (snd (signup x e users b)) = 400 \<and>
         js_get ''message'' (body (snd (signup x e users b))) =
           Some (JStr (if signupValidation x b = [] then ''Email already exists''
                       else ''Validation failed''))"
proof -
  obtain v where "findOne users (normalizeEmail x (trim (toString (body_email b)))) = Some v"
    using assms findOne_Some_iff [of users "normalizeEmail x (trim (toString (body_email b)))"]
    by auto
  then show ?thesis
    by (simp add: signup_def Let_def validation_failed_def)
qed

theorem signup_registered_email_fails_witness:
  "demo_user \<in> set [demo_user] \<and>
   user_email demo_user = normalizeEmail demo_ext (trim (toString (body_email demo_credentials))) \<and>
   signupValidation demo_ext demo_credentials = [] \<and>
   fst (signup demo_ext demo_env [demo_user] demo_credentials) = [demo_user] \<and>
   status (snd (signup demo_ext demo_env [demo_user] demo_credentials)) = 400 \<and>
   js_get ''message'' (body (snd (signup demo_ext demo_env [demo_user] demo_credentials))) =
     Some (JStr ''Email already exists'')"
proof -
  have h1: "demo_user \<in> set [demo_user]" by simp
  have h2: "user_email demo_user =
      normalizeEmail demo_ext (trim (toString (body_email demo_credentials)))"
    by (simp add: demo_user_def demo_credentials_def toString_def demo_strings demo_ext_simps)
  have v: "signupValidation demo_ext demo_credentials = []"
    by (simp add: signupValidation_Nil demo_credentials_def toString_def demo_strings demo_ext_simps)
  show ?thesis
    using signup_registered_email_fails [OF h1 h2, of demo_env] h1 h2 v by simp
qed

text \<open>
  The claim as stated fails: with a password of three letters the registered
  email is answered with the validation failure, not with the conflict.
\<close>

theorem signup_registered_email_weak_password_counterexample:
  "user_email demo_user =
     normalizeEmail demo_ext
       (trim (toString (body_email (demo_credentials\<lparr>body_password := Some ''abc''\<rparr>)))) \<and>
   js_get ''message''
     (body (snd (signup demo_ext demo_env [demo_user]
                   (demo_credentials\<lparr>body_password := Some ''abc''\<rparr>)))) =
     Some (JStr ''Validation failed'') \<and>
   js_get ''message''
     (body (snd (signup demo_ext demo_env [demo_user]
                   (demo_credentials\<lparr>body_password := Some ''abc''\<rparr>)))) \<noteq>
     Some (JStr ''Email already exists'')"
proof -
  have h2: "user_email demo_user =
     normalizeEmail demo_ext
       (trim (toString (body_email (demo_credentials\<lparr>body_password := Some ''abc''\<rparr>))))"
    by (simp add: demo_user_def demo_credentials_def toString_def demo_strings demo_ext_simps)
  have v: "signupValidation demo_ext (demo_credentials\<lparr>body_password := Some ''abc''\<rparr>) \<noteq> []"
    by (simp add: signupValidation_Nil toString_def)
  have "js_get ''message''
     (body (snd (signup demo_ext demo_env [demo_user]
                   (demo_credentials\<lparr>body_password := Some ''abc''\<rparr>)))) =
     Some (JStr ''Validation failed'')"
    using v by (simp add: signup_def Let_def validation_failed_def)
  then show ?thesis using h2 by simp
qed

section \<open>The post service\<close>

text \<open>
  C1, as amended: when the id of the authenticated caller differs from the
  submitted \<open>userId\<close>, no post is persisted. When the request has no file, or a
  file under 5 MiB that the filter accepts, it is answered with 400 if the
  fields are not given, else with 401 if the token carries no id, else with
  403; the first version of the route does not ask the token for an id and
  answers 400 or 403. A file of 5 MiB or more that the filter accepts is
  answered with 400 by the later version.
\<close>

theorem create_post_other_owner:
  assumes "auth x request = Inr req"
    and "req_user req = Some caller"
    and "js_get ''id'' caller \<noteq> Some (JStr (toString (userId request)))"
  shows "fst (create_post x e posts request) = posts \<and>
         fst (create_post_draft x e posts request) = posts \<and>
         (req_file request = None \<or>
          (\<exists>f. req_file request = Some f \<and> fileFilter x f \<and> file_size f < 5 * 1024 * 1024) \<longrightarrow>
            status (snd (create_post x e posts request)) =
              (if \<not> fields_given request then 400
               else if \<not> truthy (js_get ''id'' caller) then 401 else 403) \<and>
            status (snd (create_post_draft x e posts request)) =
              (if \<not> fields_given_draft request then 400 else 403)) \<and>
         ((\<exists>f. req_file request = Some f \<and> fileFilter x f \<and> 5 * 1024 * 1024 \<le> file_size f) \<longrightarrow>
            status (snd (create_post x e posts request)) = 400)"
proof -
  have accepted: "status (snd (create_post x e posts request)) =
              (if \<not> fields_given request then 400
               else if \<not> truthy (js_get ''id'' caller) then 401 else 403) \<and>
            status (snd (create_post_draft x e posts request)) =
              (if \<not> fields_given_draft request then 400 else 403)"
    if h: "req_file request = None \<or>
        (\<exists>f. req_file request = Some f \<and> fileFilter x f \<and> file_size f < 5 * 1024 * 1024)"
  proof -
    obtain filename where "upload x e (req_file request) = Inr filename"
      using h upload_accepts(1,2) [where x = x and e = e] by (metis (no_types))
    then show ?thesis
      using create_post_checks(2,4) [OF assms(1) _ assms(2,3)] by blast
  qed
  have refused: "status (snd (create_post x e posts request)) = 400"
    if "\<exists>f. req_file request = Some f \<and> fileFilter x f \<and> 5 * 1024 * 1024 \<le> file_size f"
  proof -
    have "upload x e (req_file request) = Inl (MulterError ''File too large'')"
      using that upload_accepts(3) [where x = x and e = e] by auto
    then show ?thesis
      using auth_keeps_body(5) [OF assms(1)]
      by (simp add: create_post_def assms(1) router_error_handler_def)
  qed
  show ?thesis
    using create_post_store [OF assms] accepted refused by blast
qed

theorem create_post_other_owner_witness:
  "auth demo_ext (demo_request\<lparr>userId := Some ''u2''\<rparr>) =
     Inr (demo_request\<lparr>userId := Some ''u2'', req_user := Some (JObj [(''id'', JStr ''u1'')])\<rparr>) \<and>
   js_get ''id'' (JObj [(''id'', JStr ''u1'')]) \<noteq> Some (JStr (toString (Some ''u2''))) \<and>
   fields_given (demo_request\<lparr>userId := Some ''u2''\<rparr>) \<and>
   fst (create_post demo_ext demo_env [] (demo_request\<lparr>userId := Some ''u2''\<rparr>)) = [] \<and>
   status (snd (create_post demo_ext demo_env [] (demo_request\<lparr>userId := Some ''u2''\<rparr>))) = 403 \<and>
   fst (create_post_draft demo_ext demo_env [] (demo_request\<lparr>userId := Some ''u2''\<rparr>)) = [] \<and>
   status (snd (create_post_draft demo_ext demo_env [] (demo_request\<lparr>userId := Some ''u2''\<rparr>))) = 403 \<and>
   status (snd (create_post demo_ext demo_env []
     (demo_request\<lparr>authorization := Some ''Bearer token-'', userId := Some ''u2''\<rparr>))) = 401 \<and>
   fileFilter demo_ext \<lparr>originalname = ''photo.png'', mimetype = ''image/png'', file_size = 5242880\<rparr> \<and>
   status (snd (create_post demo_ext demo_env []
     (demo_request\<lparr>userId := Some ''u2'',
                    req_file := Some \<lparr>originalname = ''photo.png'', mimetype = ''image/png'',
                                      file_size = 5242880\<rparr>\<rparr>))) = 400"
proof -
  let ?r = "demo_request\<lparr>userId := Some ''u2''\<rparr>"
  let ?caller = "JObj [(''id'', JStr ''u1'')]"
  let ?f = "\<lparr>originalname = ''photo.png'', mimetype = ''image/png'', file_size = 5242880\<rparr>"
  let ?s = "?r\<lparr>req_file := Some ?f\<rparr>"
  let ?t = "demo_request\<lparr>authorization := Some ''Bearer token-'', userId := Some ''u2''\<rparr>"
  have a: "auth demo_ext ?r = Inr (?r\<lparr>req_user := Some ?caller\<rparr>)"
    "auth demo_ext ?s = Inr (?s\<lparr>req_user := Some ?caller\<rparr>)"
    "auth demo_ext ?t = Inr (?t\<lparr>req_user := Some (JObj [(''id'', JStr [])])\<rparr>)"
    by (simp_all add: auth_def header_token_def demo_request_def demo_ext_simps)
  have d: "js_get ''id'' ?caller \<noteq> Some (JStr (toString (Some ''u2'')))"
    by (simp add: toString_def)
  have g: "fields_given ?r" "fields_given_draft ?r"
    by (simp_all add: fields_given_def fields_given_draft_def demo_request_def trim_def
        is_space_def)
  have n: "req_file ?r = None"
    by (simp add: demo_request_def)
  have gt: "fields_given ?t" and nt: "req_file ?t = None"
    by (simp_all add: fields_given_def demo_request_def trim_def is_space_def)
  have ff: "fileFilter demo_ext ?f"
    by (simp add: fileFilter_def filetypes_def demo_ext_simps toLowerCase_def lower_char_def
        sublist_code)
  have "fst (create_post demo_ext demo_env [] ?r) = [] \<and>
        status (snd (create_post demo_ext demo_env [] ?r)) = 403 \<and>
        fst (create_post_draft demo_ext demo_env [] ?r) = [] \<and>
        status (snd (create_post_draft demo_ext demo_env [] ?r)) = 403"
    using create_post_other_owner [OF a(1), of ?caller demo_env "[]"] d g n by simp
  moreover have "status (snd (create_post demo_ext demo_env [] ?t)) = 401"
    using create_post_other_owner [OF a(3), of "JObj [(''id'', JStr [])]" demo_env "[]"] gt nt
    by (simp add: toString_def)
  moreover have "status (snd (create_post demo_ext demo_env [] ?s)) = 400"
    using create_post_other_owner [OF a(2), of ?caller demo_env "[]"] d ff by simp
  ultimately show ?thesis
    using a(1) d g(1) ff by simp
qed

text \<open>
  The claim as stated fails: an authenticated caller \<open>u1\<close> who submits the owner
  \<open>u2\<close> without a post name is answered with 400, by the route and by its
  draft, since the fields are validated before the owner is compared.
\<close>

theorem create_post_other_owner_invalid_payload_counterexample:
  "auth demo_ext (demo_request\<lparr>userId := Some ''u2'', postName := None\<rparr>) =
     Inr (demo_request\<lparr>userId := Some ''u2'', postName := None,
                       req_user := Some (JObj [(''id'', JStr ''u1'')])\<rparr>) \<and>
   status (snd (create_post demo_ext demo_env []
                  (demo_request\<lparr>userId := Some ''u2'', postName := None\<rparr>))) = 400 \<and>
   status (snd (create_post_draft demo_ext demo_env []
                  (demo_request\<lparr>userId := Some ''u2'', postName := None\<rparr>))) = 400"
  by (simp add: create_post_def create_post_draft_def auth_def header_token_def demo_request_def
      demo_ext_simps upload_def postValidation_def postValidation_draft_def check_def toString_def
      validation_failed_def trim_def)

text \<open>
  C3: where the code departs from the claim. An authenticated request with a
  file that the filter refuses creates no post, as the claim says, but is
  answered with 500 and \<open>Internal server error\<close>, not with 400: the filter
  refuses the file with a plain \<open>Error\<close>, and the error handler of the router
  answers 400 to a \<open>MulterError\<close> only, which is what a file over the size limit
  raises (\<open>create_post_upload_errors\<close>). The image \<open>photo.gif\<close> of type
  \<open>image/gif\<close> is such a file.
\<close>

theorem create_post_refused_file_answers_500:
  assumes "auth x request = Inr req"
    and "req_file request = Some f"
    and "\<not> fileFilter x f"
  shows "create_post x e posts request =
     (posts,
      \<lparr>status = 500,
       body = obj [(''success'', Some (JBool False)),
                   (''message'', Some (JStr ''Internal server error'')),
                   (''error'', if development e
                               then Some (JStr ''Only JPEG, JPG, and PNG images are allowed'')
                               else None)]\<rparr>)"
  using assms auth_keeps_body(5) [OF assms(1)]
  by (simp add: create_post_def upload_def router_error_handler_def)

theorem create_post_refused_file_answers_500_witness:
  "auth demo_ext
     (demo_request\<lparr>req_file := Some \<lparr>originalname = ''photo.gif'', mimetype = ''image/gif'',
                                      file_size = 1000\<rparr>\<rparr>) =
     Inr (demo_request\<lparr>req_file := Some \<lparr>originalname = ''photo.gif'', mimetype = ''image/gif'',
                                           file_size = 1000\<rparr>,
                       req_user := Some (JObj [(''id'', JStr ''u1'')])\<rparr>) \<and>
   \<not> fileFilter demo_ext \<lparr>originalname = ''photo.gif'', mimetype = ''image/gif'', file_size = 1000\<rparr> \<and>
   create_post demo_ext demo_env []
     (demo_request\<lparr>req_file := Some \<lparr>originalname = ''photo.gif'', mimetype = ''image/gif'',
                                      file_size = 1000\<rparr>\<rparr>) =
   ([], \<lparr>status = 500,
          body = JObj [(''success'', JBool False),
                       (''message'', JStr ''Internal server error'')]\<rparr>)"
proof -
  let ?f = "\<lparr>originalname = ''photo.gif'', mimetype = ''image/gif'', file_size = 1000\<rparr>"
  let ?r = "demo_request\<lparr>req_file := Some ?f\<rparr>"
  have a: "auth demo_ext ?r = Inr (?r\<lparr>req_user := Some (JObj [(''id'', JStr ''u1'')])\<rparr>)"
    by (simp add: auth_def header_token_def demo_request_def demo_ext_simps)
  have f: "req_file ?r = Some ?f"
    by simp
  have n: "\<not> fileFilter demo_ext ?f"
    by (simp add: fileFilter_def filetypes_def sublist_code)
  have "create_post demo_ext demo_env [] ?r =
     ([], \<lparr>status = 500,
            body = JObj [(''success'', JBool False),
                         (''message'', JStr ''Internal server error'')]\<rparr>)"
    using create_post_refused_file_answers_500 [OF a f n, of demo_env "[]"]
    by (simp add: demo_env_def)
  then show ?thesis using a n by simp
qed



text \<open>
  C5: where the code departs from the claim. The first version of the route
  does not compare the dates. A request with both dates, the start after the
  end, whose page and limit are integers from 1 on and whose search text the
  store accepts, is answered with 200 there: with no posts, as the claim says,
  but not with 400, which the later version answers
  (\<open>list_posts_inverted_dates\<close>) unless \<open>Date\<close> cannot read a date that passed
  validation (\<open>list_posts_unreadable_start\<close>).
\<close>

theorem list_posts_draft_inverted_dates:
  assumes "q_startDate q = Some s" "q_endDate q = Some t" "s \<noteq> []" "t \<noteq> []"
    and "parseDate x s = Some a" "parseDate x t = Some b" "b < a"
    and "\<forall>pattern. q_searchText q = Some pattern \<and> pattern \<noteq> [] \<longrightarrow>
           (\<exists>matches. regex x pattern = Inr matches)"
    and "asks_for (q_page q) 1 p" "1 \<le> p"
    and "asks_for (q_limit q) 10 l" "1 \<le> l"
    and "p * l \<le> 2 ^ 53"
  shows "list_posts_draft x posts q =
     \<lparr>status = 200,
      body = JObj [(''posts'', JArr []), (''total'', JNum 0), (''page'', JNum (of_int p)),
                   (''pages'', JNum 0)]\<rparr>"
proof -
  obtain matching where c: "compile_query x (build_query_draft x q) = Inr matching"
    "filter matching posts = []"
    using inverted_dates_draft_query [OF assms(1-8)] by blast
  have pb: "p \<le> 2 ^ 53"
  proof -
    have "p * 1 \<le> p * l"
      using assms(10,12) by (intro mult_left_mono) simp_all
    then show ?thesis using assms(13) by simp
  qed
  have lb: "l \<le> 2 ^ 53"
  proof -
    have "1 * l \<le> p * l"
      using assms(10,12) by (intro mult_right_mono) simp_all
    then show ?thesis using assms(13) by simp
  qed
  have pn: "to_number x (q_page q) 1 = Num (of_int p)" "parse_int x (q_page q) 1 = Num (of_int p)"
    using asks_for_number [OF assms(9), of x] assms(10) pb by simp_all
  have ln: "to_number x (q_limit q) 10 = Num (of_int l)"
    "parse_int x (q_limit q) 10 = Num (of_int l)"
    using asks_for_number [OF assms(11), of x] assms(12) lb by simp_all
  have sk: "js_mul x (js_sub x (Num (of_int p)) (Num 1)) (Num (of_int l)) =
              Num (of_int ((p - 1) * l))"
    using skip_exact [OF assms(10,12,13)] .
  have k0: "0 \<le> (p - 1) * l"
    using assms(10,12) by simp
  have k1: "(p - 1) * l \<le> 2 ^ 53"
  proof -
    have "(p - 1) * l \<le> p * l"
      using assms(12) by (intro mult_right_mono) simp_all
    then show ?thesis using assms(13) by simp
  qed
  have w: "window x (Num (of_int ((p - 1) * l))) (Num (of_int l)) =
             Inr (nat ((p - 1) * l), Some (nat l))"
    using window_counts [OF k0 k1 assms(12) lb] .
  have so: "sort_posts key [] = []" for key
    by (cases key) (simp add: sort_posts_def)
  have f: "find_posts x posts (build_query_draft x q) (Num (of_int ((p - 1) * l)))
             (Num (of_int l)) (''uploadTime'', - 1) = Inr []"
    by (simp only: find_posts_def c w so sum.case prod.case Let_def drop_Nil take_Nil option.case)
  have n: "countDocuments x posts (build_query_draft x q) = Inr 0"
    by (simp add: countDocuments_def c)
  have z: "js_number x (real 0) = Num 0"
    by (simp add: js_number_def)
  have lnz: "real_of_int l \<noteq> 0"
    using assms(12) by simp
  have pg: "js_ceil (js_div x (Num 0) (Num (of_int l))) = Num 0"
    using lnz by (simp add: js_number_def)
  show ?thesis
    unfolding list_posts_draft_def Let_def
    by (simp only: pn ln sk f n z pg simp_thms if_False if_True sum.case) simp
qed

theorem list_posts_draft_inverted_dates_witness:
  "isISO8601 demo_ext ''2024-03-02'' \<and> isISO8601 demo_ext ''2024-03-01'' \<and>
   parseDate demo_ext ''2024-03-02'' = Some 1709337600000 \<and>
   parseDate demo_ext ''2024-03-01'' = Some 1709251200000 \<and>
   list_posts_draft demo_ext [demo_post ''a'' 1709300000000]
     (demo_query\<lparr>q_startDate := Some ''2024-03-02'', q_endDate := Some ''2024-03-01''\<rparr>) =
     \<lparr>status = 200,
      body = JObj [(''posts'', JArr []), (''total'', JNum 0), (''page'', JNum 1),
                   (''pages'', JNum 0)]\<rparr> \<and>
   status (list_posts demo_ext demo_env [demo_post ''a'' 1709300000000]
     (demo_query\<lparr>q_startDate := Some ''2024-03-02'', q_endDate := Some ''2024-03-01''\<rparr>)) = 400"
proof -
  let ?q = "demo_query\<lparr>q_startDate := Some ''2024-03-02'', q_endDate := Some ''2024-03-01''\<rparr>"
  have i: "isISO8601 demo_ext ''2024-03-02''" "isISO8601 demo_ext ''2024-03-01''"
    by (simp_all add: demo_ext_simps)
  have d: "parseDate demo_ext ''2024-03-02'' = Some 1709337600000"
    "parseDate demo_ext ''2024-03-01'' = Some 1709251200000"
    by (simp_all add: demo_ext_simps)
  have f: "q_startDate ?q = Some ''2024-03-02''" "q_endDate ?q = Some ''2024-03-01''"
    by simp_all
  have s: "\<forall>pattern. q_searchText ?q = Some pattern \<and> pattern \<noteq> [] \<longrightarrow>
             (\<exists>matches. regex demo_ext pattern = Inr matches)"
    by (simp add: demo_query_def)
  have a: "asks_for (q_page ?q) 1 1" "asks_for (q_limit ?q) 10 10"
    by (simp_all add: asks_for_def demo_query_def)
  have "list_posts_draft demo_ext [demo_post ''a'' 1709300000000] ?q =
     \<lparr>status = 200,
      body = JObj [(''posts'', JArr []), (''total'', JNum 0), (''page'', JNum 1),
                   (''pages'', JNum 0)]\<rparr>"
    using list_posts_draft_inverted_dates [OF f _ _ d _ s a(1) _ a(2),
        of "[demo_post ''a'' 1709300000000]"]
    by simp
  moreover have "status (list_posts demo_ext demo_env [demo_post ''a'' 1709300000000] ?q) = 400"
    using list_posts_inverted_dates [OF f _ _ d, of demo_env "[demo_post ''a'' 1709300000000]"]
    by simp
  ultimately show ?thesis
    using i d by blast
qed

text \<open>
  C9: the posts of every listing are ordered by upload time, newest first, and
  posts of equal upload time are in insertion order. The order is the same on
  every page: the listings of all requests with the same filters are runs of
  consecutive posts of one list in that order. This holds of both versions of
  the route. The route asks the store for \<open>uploadTime\<close> descending and for no
  second key; that the store keeps posts of equal upload time in insertion
  order is what the spec says of it (\<open>sort_posts\<close>).
\<close>

theorem list_posts_newest_first:
  "(\<exists>ordered. newest_first ordered \<and> ties_in_insertion_order posts ordered \<and>
      (\<forall>q'. same_filters q q' \<and> status (list_posts x e posts q') = 200 \<longrightarrow>
         (\<exists>found k m.
            data_get ''posts'' (list_posts x e posts q') = Some (JArr (map (post_json x) found)) \<and>
            found = take m (drop k ordered) \<and>
            newest_first found \<and> ties_in_insertion_order posts found))) \<and>
   (\<exists>ordered. newest_first ordered \<and> ties_in_insertion_order posts ordered \<and>
      (\<forall>q'. same_filters q q' \<and> status (list_posts_draft x posts q') = 200 \<longrightarrow>
         (\<exists>found k m.
            js_get ''posts'' (body (list_posts_draft x posts q')) =
              Some (JArr (map (post_json x) found)) \<and>
            found = take m (drop k ordered) \<and>
            newest_first found \<and> ties_in_insertion_order posts found)))"
proof
  obtain ordered where o: "newest_first ordered" "ties_in_insertion_order posts ordered"
    "\<And>skip limit found.
       find_posts x posts (build_query x q) skip limit (''uploadTime'', - 1) = Inr found \<Longrightarrow>
       \<exists>k m. found = take m (drop k ordered)"
    using find_posts_ordered [of posts x "build_query x q"] by blast
  have "\<exists>found k m.
          data_get ''posts'' (list_posts x e posts q') = Some (JArr (map (post_json x) found)) \<and>
          found = take m (drop k ordered) \<and>
          newest_first found \<and> ties_in_insertion_order posts found"
    if sf: "same_filters q q'" and st: "status (list_posts x e posts q') = 200" for q'
  proof -
    obtain found skip limit where f:
      "find_posts x posts (build_query x q) skip limit (''uploadTime'', - 1) = Inr found"
      "data_get ''posts'' (list_posts x e posts q') = Some (JArr (map (post_json x) found))"
      using list_posts_200 [OF st] same_filters_query(1) [OF sf, of x] by auto
    obtain k m where s: "found = take m (drop k ordered)"
      using o(3) [OF f(1)] by blast
    show ?thesis
      using f(2) s newest_first_slice [OF o(1), of m k] ties_slice [OF o(2), of m k] by blast
  qed
  then show "\<exists>ordered. newest_first ordered \<and> ties_in_insertion_order posts ordered \<and>
      (\<forall>q'. same_filters q q' \<and> status (list_posts x e posts q') = 200 \<longrightarrow>
         (\<exists>found k m.
            data_get ''posts'' (list_posts x e posts q') = Some (JArr (map (post_json x) found)) \<and>
            found = take m (drop k ordered) \<and>
            newest_first found \<and> ties_in_insertion_order posts found))"
    using o(1,2) by blast
next
  obtain ordered where o: "newest_first ordered" "ties_in_insertion_order posts ordered"
    "\<And>skip limit found.
       find_posts x posts (build_query_draft x q) skip limit (''uploadTime'', - 1) = Inr found \<Longrightarrow>
       \<exists>k m. found = take m (drop k ordered)"
    using find_posts_ordered [of posts x "build_query_draft x q"] by blast
  have "\<exists>found k m.
          js_get ''posts'' (body (list_posts_draft x posts q')) =
            Some (JArr (map (post_json x) found)) \<and>
          found = take m (drop k ordered) \<and>
          newest_first found \<and> ties_in_insertion_order posts found"
    if sf: "same_filters q q'" and st: "status (list_posts_draft x posts q') = 200" for q'
  proof -
    obtain found skip limit where f:
      "find_posts x posts (build_query_draft x q) skip limit (''uploadTime'', - 1) = Inr found"
      "js_get ''posts'' (body (list_posts_draft x posts q')) =
         Some (JArr (map (post_json x) found))"
      using list_posts_draft_200 [OF st] same_filters_query(2) [OF sf, of x] by auto
    obtain k m where s: "found = take m (drop k ordered)"
      using o(3) [OF f(1)] by blast
    show ?thesis
      using f(2) s newest_first_slice [OF o(1), of m k] ties_slice [OF o(2), of m k] by blast
  qed
  then show "\<exists>ordered. newest_first ordered \<and> ties_in_insertion_order posts ordered \<and>
      (\<forall>q'. same_filters q q' \<and> status (list_posts_draft x posts q') = 200 \<longrightarrow>
         (\<exists>found k m.
            js_get ''posts'' (body (list_posts_draft x posts q')) =
              Some (JArr (map (post_json x) found)) \<and>
            found = take m (drop k ordered) \<and>
            newest_first found \<and> ties_in_insertion_order posts found))"
    using o(1,2) by blast
qed


theorem list_posts_newest_first_witness:
  "same_filters demo_query (demo_query\<lparr>q_page := Some ''1'', q_limit := Some ''2''\<rparr>) \<and>
   same_filters demo_query (demo_query\<lparr>q_page := Some ''2'', q_limit := Some ''2''\<rparr>) \<and>
   status (list_posts demo_ext demo_env demo_ties
             (demo_query\<lparr>q_page := Some ''1'', q_limit := Some ''2''\<rparr>)) = 200 \<and>
   status (list_posts demo_ext demo_env demo_ties
             (demo_query\<lparr>q_page := Some ''2'', q_limit := Some ''2''\<rparr>)) = 200 \<and>
   data_get ''posts''
     (list_posts demo_ext demo_env demo_ties
        (demo_query\<lparr>q_page := Some ''1'', q_limit := Some ''2''\<rparr>)) =
     Some (JArr (map (post_json demo_ext) [demo_post ''c'' 7, demo_post ''a'' 5])) \<and>
   data_get ''posts''
     (list_posts demo_ext demo_env demo_ties
        (demo_query\<lparr>q_page := Some ''2'', q_limit := Some ''2''\<rparr>)) =
     Some (JArr (map (post_json demo_ext) [demo_post ''b'' 5])) \<and>
   (\<exists>ordered. newest_first ordered \<and> ties_in_insertion_order demo_ties ordered \<and>
      (\<exists>found k m.
         data_get ''posts''
           (list_posts demo_ext demo_env demo_ties
              (demo_query\<lparr>q_page := Some ''1'', q_limit := Some ''2''\<rparr>)) =
           Some (JArr (map (post_json demo_ext) found)) \<and>
         found = take m (drop k ordered) \<and> newest_first found \<and>
         ties_in_insertion_order demo_ties found) \<and>
      (\<exists>found k m.
         data_get ''posts''
           (list_posts demo_ext demo_env demo_ties
              (demo_query\<lparr>q_page := Some ''2'', q_limit := Some ''2''\<rparr>)) =
           Some (JArr (map (post_json demo_ext) found)) \<and>
         found = take m (drop k ordered) \<and> newest_first found \<and>
         ties_in_insertion_order demo_ties found))"
proof -
  let ?q1 = "demo_query\<lparr>q_page := Some ''1'', q_limit := Some ''2''\<rparr>"
  let ?q2 = "demo_query\<lparr>q_page := Some ''2'', q_limit := Some ''2''\<rparr>"
  have n: "length demo_ties < 2 ^ 53"
    by (simp add: demo_ties_def)
  have a1: "asks_for (q_page ?q1) 1 1" and a2: "asks_for (q_limit ?q1) 10 2"
    and b1: "asks_for (q_page ?q2) 1 2" and b2: "asks_for (q_limit ?q2) 10 2"
    by (simp_all add: asks_for_def js_int_examples)
  have r1: "list_posts demo_ext demo_env demo_ties ?q1 =
     \<lparr>status = 200,
      body = JObj [(''success'', JBool True),
                   (''message'', JStr ''Posts retrieved successfully''),
                   (''data'',
                    JObj [(''posts'',
                           JArr (map (post_json demo_ext) [demo_post ''c'' 7, demo_post ''a'' 5])),
                          (''total'', JNum 3), (''page'', JNum 1), (''pages'', JNum 2),
                          (''limit'', JNum 2)])]\<rparr>"
    using list_posts_valid [OF demo_query_filters(1) a1 _ a2 _ _ _ n demo_binary64, of demo_env]
    by (simp add: demo_query_filters(3) demo_ties_sorted demo_ties_length)
  have r2: "list_posts demo_ext demo_env demo_ties ?q2 =
     \<lparr>status = 200,
      body = JObj [(''success'', JBool True),
                   (''message'', JStr ''Posts retrieved successfully''),
                   (''data'',
                    JObj [(''posts'', JArr (map (post_json demo_ext) [demo_post ''b'' 5])),
                          (''total'', JNum 3), (''page'', JNum 2), (''pages'', JNum 2),
                          (''limit'', JNum 2)])]\<rparr>"
    using list_posts_valid [OF demo_query_filters(1) b1 _ b2 _ _ _ n demo_binary64, of demo_env]
    by (simp add: demo_query_filters(3) demo_ties_sorted demo_ties_length)
  have s: "status (list_posts demo_ext demo_env demo_ties ?q1) = 200"
    "status (list_posts demo_ext demo_env demo_ties ?q2) = 200"
    by (simp_all only: r1 r2 response.simps)
  have d: "data_get ''posts'' (list_posts demo_ext demo_env demo_ties ?q1) =
             Some (JArr (map (post_json demo_ext) [demo_post ''c'' 7, demo_post ''a'' 5]))"
    "data_get ''posts'' (list_posts demo_ext demo_env demo_ties ?q2) =
       Some (JArr (map (post_json demo_ext) [demo_post ''b'' 5]))"
    by (simp_all add: r1 r2 data_get_def)
  note f = demo_query_filters(4) [where pg = "Some ''1''" and lm = "Some ''2''"]
    demo_query_filters(4) [where pg = "Some ''2''" and lm = "Some ''2''"]
  obtain ordered where o: "newest_first ordered" "ties_in_insertion_order demo_ties ordered"
    "\<forall>q'. same_filters demo_query q' \<and>
          status (list_posts demo_ext demo_env demo_ties q') = 200 \<longrightarrow>
       (\<exists>found k m.
          data_get ''posts'' (list_posts demo_ext demo_env demo_ties q') =
            Some (JArr (map (post_json demo_ext) found)) \<and>
          found = take m (drop k ordered) \<and>
          newest_first found \<and> ties_in_insertion_order demo_ties found)"
    using list_posts_newest_first [of demo_ties demo_query demo_ext demo_env] by blast
  have "\<exists>found k m.
          data_get ''posts'' (list_posts demo_ext demo_env demo_ties ?q1) =
            Some (JArr (map (post_json demo_ext) found)) \<and>
          found = take m (drop k ordered) \<and>
          newest_first found \<and> ties_in_insertion_order demo_ties found"
    using o(3) f(1) s(1) by blast
  moreover have "\<exists>found k m.
          data_get ''posts'' (list_posts demo_ext demo_env demo_ties ?q2) =
            Some (JArr (map (post_json demo_ext) found)) \<and>
          found = take m (drop k ordered) \<and>
          newest_first found \<and> ties_in_insertion_order demo_ties found"
    using o(3) f(2) s(2) by blast
  ultimately show ?thesis
    using f s d o(1,2) by blast
qed

end
